theory Spec2Isabelle
  imports Main "HOL-Library.Word" "HOL-Library.Finite_Map" "HOL-Library.Multiset"
begin

unbundle bit_operations_syntax

section \<open>Machine types\<close>

text \<open>
  Go's fixed-width integers are words: \<open>+\<close> wraps, \<open>uint\<close> reads a word unsigned and
  \<open>sint\<close> reads it in two's complement. An \<open>int32\<close> and a \<open>uint32\<close> are both 32-bit
  words; the reading (\<open>sint\<close> or \<open>uint\<close>) is chosen where the source's type is signed or
  unsigned. A \<open>float64\<close> is carried as its 64-bit pattern: the code below only stores and
  returns such values, it never computes with them. A \<open>[]byte\<close> is a list of characters
  (an Isabelle \<open>char\<close> is one byte).
\<close>

type_synonym uint64 = "64 word"
type_synonym uint32 = "32 word"
type_synonym int32 = "32 word"
type_synonym float64 = "64 word"
type_synonym byte = char

section \<open>Tag codec (example/example.go, callbackHandler)\<close>

text \<open>
  \<^verbatim>\<open>dataType := (tag >> 56) & 0xff\<close>
\<close>

definition callbackHandler_dataType :: "uint64 \<Rightarrow> uint64" where
  "callbackHandler_dataType tag = (drop_bit 56 tag) AND 0xff"

text \<open>
  \<^verbatim>\<open>dataTypeStr := "unknown"; switch dataType { case 0: "string"; case 1: "uint64" }\<close>
\<close>

definition callbackHandler_dataTypeStr :: "uint64 \<Rightarrow> string" where
  "callbackHandler_dataTypeStr tag =
     (let dataType = callbackHandler_dataType tag in
      if dataType = 0 then ''string''
      else if dataType = 1 then ''uint64''
      else ''unknown'')"

text \<open>
  \<^verbatim>\<open>tag = tag & 0x0000ffffffffffff\<close>
\<close>

definition callbackHandler_tag :: "uint64 \<Rightarrow> uint64" where
  "callbackHandler_tag tag = tag AND 0x0000ffffffffffff"

text \<open>The pair the handler reads out of a tag: the data type and the sequence number.\<close>

definition Decode :: "uint64 \<Rightarrow> uint64 \<times> uint64" where
  "Decode tag = (callbackHandler_dataType tag, callbackHandler_tag tag)"

text \<open>
  Modelled from the spec: the packing of a tag is done on the sending side, which is not
  among the sources. The spec gives it as
  \<^verbatim>\<open>(dataTypeDiscriminator << 56) | sequenceNumber(48 bits)\<close>.
\<close>

definition Encode :: "uint64 \<Rightarrow> uint64 \<Rightarrow> uint64" where
  "Encode dataType sequence = (push_bit 56 dataType) OR sequence"

section \<open>Dynamic values, keys and results (unity/result/result.go)\<close>

text \<open>
  A value of Go's type \<open>any\<close>, as far as the modelled code meets it: what
  \<open>json.Unmarshal\<close> stores into an \<open>any\<close> (nil, bool, float64, string, slice,
  \<open>map[string]interface{}\<close>), an unsigned integer set by a caller, and the struct
  \<open>jsonResultValue\<close> that \<open>MarshalJSON\<close> puts into the envelope. A map is an association
  list read with \<open>map_of\<close>.
\<close>

datatype any =
    ANil
  | ABool bool
  | AFloat64 float64
  | AString string
  | AUint64 uint64
  | ASlice "any list"
  | AMap "(string \<times> any) list"
  | AjsonResultValue any

text \<open>
  Modelled from the spec: the key descriptor of package \<open>key\<close>, which is not among the
  sources. A key is identified by its numeric sub-type, which \<open>SubType()\<close> returns; its
  access mask and value shape are read by none of the code modelled here.
\<close>

datatype Key = MkKey (SubType: uint32)

record Result =
  key :: "Key option"
  tag :: uint64
  errorCode :: int32
  errorDesc :: string
  value' :: any

record jsonResult =
  Key :: uint32
  Tag :: uint64
  Error :: int32
  Value :: any

text \<open>The zero value \<^verbatim>\<open>&Result{}\<close>.\<close>

definition zero_Result :: Result where
  "zero_Result = \<lparr>key = None, tag = 0, errorCode = 0, errorDesc = [], value' = ANil\<rparr>"

definition New :: "Key option \<Rightarrow> uint64 \<Rightarrow> int32 \<Rightarrow> string \<Rightarrow> any \<Rightarrow> Result" where
  "New k t ec ed v = \<lparr>key = k, tag = t, errorCode = ec, errorDesc = ed, value' = v\<rparr>"

text \<open>
  The packages the decoder calls, as parameters: \<open>encoding/json\<close> (which returns the
  decoded struct or an error, here the error's message), the key catalog's
  \<open>key.FromSubType\<close>, and \<open>fmt\<close>'s rendering of a map under \<open>%v\<close>.
\<close>

record env =
  json_Unmarshal :: "byte list \<Rightarrow> string + jsonResult"
  json_Marshal :: "jsonResult \<Rightarrow> string + byte list"
  key_FromSubType :: "uint32 \<Rightarrow> string + Key"
  fmt_v :: "(string \<times> any) list \<Rightarrow> string"

text \<open>\<open>fmt\<close>'s \<open>%d\<close>: the decimal digits, with a minus sign for a negative number.\<close>

fun digits :: "nat \<Rightarrow> string" where
  "digits n =
     (if n < 10 then [char_of (48 + n)]
      else digits (n div 10) @ [char_of (48 + n mod 10)])"

definition fmt_d :: "int \<Rightarrow> string" where
  "fmt_d i = (if i < 0 then CHR ''-'' # digits (nat (- i)) else digits (nat i))"

text \<open>
  \<open>NewFromJSON\<close>. Every return of the source is a branch here; the function has no
  other way to end. On an unknown sub-type the source also prints the message to the
  standard output, which is not modelled.
\<close>

definition NewFromJSON :: "env \<Rightarrow> byte list \<Rightarrow> Result" where
  "NewFromJSON E jsonData =
     (let r = zero_Result in
      if length jsonData = 0 then
        r\<lparr>errorCode := - 1, errorDesc := ''empty or nil json data''\<rparr>
      else
        case json_Unmarshal E jsonData of
          Inl err \<Rightarrow>
            r\<lparr>errorCode := - 1,
              errorDesc := ''error unmarshalling json data: '' @ err\<rparr>
        | Inr jr \<Rightarrow>
           (case key_FromSubType E (Key jr) of
              Inl err \<Rightarrow>
                r\<lparr>errorCode := - 1,
                  errorDesc := ''error creating key from sub type '' @
                    fmt_d (uint (Key jr)) @ '': '' @ err\<rparr>
            | Inr k \<Rightarrow>
               (let errorDesc =
                      (if Error jr \<noteq> 0 then ''error '' @ fmt_d (sint (Error jr)) else [])
                in
                  case Value jr of
                    AMap outerValue \<Rightarrow>
                     (case map_of outerValue ''value'' of
                        None \<Rightarrow>
                          r\<lparr>errorCode := - 1,
                            errorDesc := ''value field not found: '' @ fmt_v E outerValue\<rparr>
                      | Some v \<Rightarrow>
                          r\<lparr>key := Some k, tag := Tag jr, errorCode := Error jr,
                            errorDesc := errorDesc, value' := v\<rparr>)
                  | v \<Rightarrow>
                      r\<lparr>key := Some k, tag := Tag jr, errorCode := Error jr,
                        errorDesc := errorDesc, value' := v\<rparr>)))"

definition Result_Key :: "Result \<Rightarrow> Key option" where
  "Result_Key r = key r"

definition SetKey :: "Key option \<Rightarrow> Result \<Rightarrow> Result" where
  "SetKey k r = r\<lparr>key := k\<rparr>"

definition Result_Tag :: "Result \<Rightarrow> uint64" where
  "Result_Tag r = tag r"

definition ErrorCode :: "Result \<Rightarrow> int32" where
  "ErrorCode r = errorCode r"

definition SetErrorCode :: "int32 \<Rightarrow> Result \<Rightarrow> Result" where
  "SetErrorCode ec r = r\<lparr>errorCode := ec\<rparr>"

definition ErrorDesc :: "Result \<Rightarrow> string" where
  "ErrorDesc r = errorDesc r"

definition SetErrorDesc :: "string \<Rightarrow> Result \<Rightarrow> Result" where
  "SetErrorDesc ed r = r\<lparr>errorDesc := ed\<rparr>"

definition Result_Value :: "Result \<Rightarrow> any" where
  "Result_Value r = value' r"

definition SetValue :: "any \<Rightarrow> Result \<Rightarrow> Result" where
  "SetValue v r = r\<lparr>value' := v\<rparr>"

definition Succeeded :: "Result \<Rightarrow> bool" where
  "Succeeded r = (errorCode r = 0)"

text \<open>
  \<open>MarshalJSON\<close> reads \<open>r.key.SubType()\<close>: with a nil key this dereferences a nil pointer,
  which is the \<open>Inl\<close> of the outer sum. Otherwise the result is what \<open>json.Marshal\<close>
  returns for the envelope, whose \<open>Value\<close> is the struct \<open>jsonResultValue{r.value}\<close>.
\<close>

datatype panic = NilPointerDereference

definition MarshalJSON :: "env \<Rightarrow> Result \<Rightarrow> panic + (string + byte list)" where
  "MarshalJSON E r =
     (case key r of
        None \<Rightarrow> Inl NilPointerDereference
      | Some k \<Rightarrow>
          Inr (json_Marshal E
            \<lparr>Key = SubType k, Tag = tag r, Error = errorCode r,
             Value = AjsonResultValue (value' r)\<rparr>))"

text \<open>The mutators of a Result, as data, and a run of them from left to right.\<close>

datatype mutator =
    MSetErrorCode int32
  | MSetErrorDesc string
  | MSetValue any
  | MSetKey "Key option"

fun mutate :: "mutator \<Rightarrow> Result \<Rightarrow> Result" where
  "mutate (MSetErrorCode ec) r = SetErrorCode ec r"
| "mutate (MSetErrorDesc ed) r = SetErrorDesc ed r"
| "mutate (MSetValue v) r = SetValue v r"
| "mutate (MSetKey k) r = SetKey k r"

fun mutate_all :: "mutator list \<Rightarrow> Result \<Rightarrow> Result" where
  "mutate_all [] r = r"
| "mutate_all (m # ms) r = mutate_all ms (mutate m r)"

section \<open>The JSON encoding of the envelope (encoding/json)\<close>

text \<open>
  \<open>MarshalJSON\<close> and \<open>NewFromJSON\<close> hand the struct \<open>jsonResult\<close> to \<open>json.Marshal\<close> and
  \<open>json.Unmarshal\<close>. What these do with it follows from the struct declarations of
  result.go (the field names \<open>Key\<close>, \<open>Tag\<close>, \<open>Error\<close>, \<open>Value\<close> and the tag
  \<open>json:"value"\<close> of \<open>jsonResultValue\<close>) and from the rules of the package. This section
  writes the two out, between the structs and a JSON value; the step between a JSON
  value and its text stays a parameter.

  A JSON value. A number is held as its text, since its reading depends on the Go type
  it is stored into. An object holds its members in the order of the text.
\<close>

datatype json =
    JNull
  | JBool bool
  | JNumber string
  | JString string
  | JArray "json list"
  | JObject "(string \<times> json) list"

text \<open>
  The parts of the package that stay parameters: the text of a JSON value and the
  reading of a text (an error message when the text is not JSON), the text written for
  a finite float64 and \<open>strconv.ParseFloat\<close> of a number's text, the \<open>'g'\<close> format of a
  float64 named in an error message, the encoding of slices and maps (not needed
  here), and the case folding of a name.
\<close>

record codec =
  text_render :: "json \<Rightarrow> byte list"
  text_parse :: "byte list \<Rightarrow> string + json"
  float_text :: "float64 \<Rightarrow> string"
  float_parse :: "string \<Rightarrow> string + float64"
  float_g :: "float64 \<Rightarrow> string"
  encode_other :: "any \<Rightarrow> string + json"
  foldName :: "string \<Rightarrow> string"

text \<open>
  A float64 is NaN or an infinity when the eleven bits of its exponent are all set.
  \<open>json.Marshal\<close> refuses such a value.
\<close>

definition IsNaN_or_IsInf :: "float64 \<Rightarrow> bool" where
  "IsNaN_or_IsInf f = ((drop_bit 52 f) AND 0x7ff = 0x7ff)"

text \<open>
  Strings. \<open>json.Marshal\<close> writes a string rune by rune and writes U+FFFD for every
  byte at which no well-formed UTF-8 sequence starts. \<open>rune_len\<close> is the length of the
  well-formed sequence at the head of the bytes, 0 when there is none; \<open>coerce_utf8\<close> is
  the string that reaches the JSON value. A string is valid UTF-8 exactly when
  \<open>coerce_utf8\<close> leaves it as it is.
\<close>

definition cont :: "nat \<Rightarrow> bool" where
  "cont b = (0x80 \<le> b \<and> b \<le> 0xBF)"

definition rune_len :: "nat list \<Rightarrow> nat" where
  "rune_len bs =
     (case bs of
        [] \<Rightarrow> 0
      | b0 # r1 \<Rightarrow>
          if b0 < 0x80 then 1
          else case r1 of
            [] \<Rightarrow> 0
          | b1 # r2 \<Rightarrow>
              if 0xC2 \<le> b0 \<and> b0 \<le> 0xDF then (if cont b1 then 2 else 0)
              else case r2 of
                [] \<Rightarrow> 0
              | b2 # r3 \<Rightarrow>
                  if b0 = 0xE0 then (if 0xA0 \<le> b1 \<and> b1 \<le> 0xBF \<and> cont b2 then 3 else 0)
                  else if (0xE1 \<le> b0 \<and> b0 \<le> 0xEC) \<or> b0 = 0xEE \<or> b0 = 0xEF then
                    (if cont b1 \<and> cont b2 then 3 else 0)
                  else if b0 = 0xED then
                    (if 0x80 \<le> b1 \<and> b1 \<le> 0x9F \<and> cont b2 then 3 else 0)
                  else case r3 of
                    [] \<Rightarrow> 0
                  | b3 # r4 \<Rightarrow>
                      if b0 = 0xF0 then
                        (if 0x90 \<le> b1 \<and> b1 \<le> 0xBF \<and> cont b2 \<and> cont b3 then 4 else 0)
                      else if 0xF1 \<le> b0 \<and> b0 \<le> 0xF3 then
                        (if cont b1 \<and> cont b2 \<and> cont b3 then 4 else 0)
                      else if b0 = 0xF4 then
                        (if 0x80 \<le> b1 \<and> b1 \<le> 0x8F \<and> cont b2 \<and> cont b3 then 4 else 0)
                      else 0)"

function coerce_utf8 :: "string \<Rightarrow> string" where
  "coerce_utf8 s =
     (if s = [] then []
      else
        let n = rune_len (map of_char s) in
        if n = 0 then [CHR 0xEF, CHR 0xBF, CHR 0xBD] @ coerce_utf8 (tl s)
        else take n s @ coerce_utf8 (drop n s))"
  by pat_completeness auto
termination
  by (relation "measure length") auto

declare coerce_utf8.simps [simp del]

text \<open>
  Encoding a value of type \<open>any\<close>. The struct \<open>jsonResultValue\<close> becomes an object with
  the one member that its field tag names.
\<close>

fun encode_any :: "codec \<Rightarrow> any \<Rightarrow> string + json" where
  "encode_any T ANil = Inr JNull"
| "encode_any T (ABool b) = Inr (JBool b)"
| "encode_any T (AFloat64 f) =
     (if IsNaN_or_IsInf f then Inl (''json: unsupported value: '' @ float_g T f)
      else Inr (JNumber (float_text T f)))"
| "encode_any T (AString s) = Inr (JString (coerce_utf8 s))"
| "encode_any T (AUint64 n) = Inr (JNumber (fmt_d (uint n)))"
| "encode_any T (ASlice xs) = encode_other T (ASlice xs)"
| "encode_any T (AMap m) = encode_other T (AMap m)"
| "encode_any T (AjsonResultValue v) =
     (case encode_any T v of
        Inl err \<Rightarrow> Inl err
      | Inr j \<Rightarrow> Inr (JObject [(''value'', j)]))"

text \<open>
  Decoding a JSON value into an \<open>any\<close>: null gives nil, a number a float64, an array a
  slice and an object a \<open>map[string]interface{}\<close>, in which a later member of the same
  name replaces an earlier one (the list is reversed, so that \<open>map_of\<close> finds the last).
  The first error of a part is the error of the whole.
\<close>

fun collect :: "('e + 'a) list \<Rightarrow> 'e + 'a list" where
  "collect [] = Inr []"
| "collect (x # xs) =
     (case x of
        Inl err \<Rightarrow> Inl err
      | Inr a \<Rightarrow> (case collect xs of Inl err \<Rightarrow> Inl err | Inr as \<Rightarrow> Inr (a # as)))"

fun decode_any :: "codec \<Rightarrow> json \<Rightarrow> string + any" where
  "decode_any T JNull = Inr ANil"
| "decode_any T (JBool b) = Inr (ABool b)"
| "decode_any T (JNumber t) =
     (case float_parse T t of Inl err \<Rightarrow> Inl err | Inr f \<Rightarrow> Inr (AFloat64 f))"
| "decode_any T (JString s) = Inr (AString s)"
| "decode_any T (JArray xs) =
     (case collect (map (decode_any T) xs) of
        Inl err \<Rightarrow> Inl err
      | Inr vs \<Rightarrow> Inr (ASlice vs))"
| "decode_any T (JObject ms) =
     (case collect (map (\<lambda>(k, v). case decode_any T v of
                                      Inl err \<Rightarrow> Inl err
                                    | Inr a \<Rightarrow> Inr (k, a)) ms) of
        Inl err \<Rightarrow> Inl err
      | Inr kvs \<Rightarrow> Inr (AMap (rev kvs)))"

text \<open>
  \<open>strconv.ParseUint\<close> and \<open>strconv.ParseInt\<close> in base 10 for a given bit size: digits
  only, with a sign for \<open>ParseInt\<close>, and \<open>None\<close> for any other text or a number out of
  range.
\<close>

definition is_digit :: "char \<Rightarrow> bool" where
  "is_digit c = (48 \<le> (of_char c :: nat) \<and> (of_char c :: nat) \<le> 57)"

fun read_digits :: "nat \<Rightarrow> string \<Rightarrow> nat option" where
  "read_digits acc [] = Some acc"
| "read_digits acc (c # cs) =
     (if is_digit c then read_digits (10 * acc + (of_char c - 48)) cs else None)"

definition ParseUint :: "string \<Rightarrow> nat \<Rightarrow> nat option" where
  "ParseUint s bitSize =
     (if s = [] then None
      else case read_digits 0 s of
        None \<Rightarrow> None
      | Some n \<Rightarrow> if n < 2 ^ bitSize then Some n else None)"

definition ParseInt :: "string \<Rightarrow> nat \<Rightarrow> int option" where
  "ParseInt s bitSize =
     (case s of
        [] \<Rightarrow> None
      | c # cs \<Rightarrow>
          if c = CHR ''-'' then
            (case ParseUint cs bitSize of
               None \<Rightarrow> None
             | Some n \<Rightarrow> if n \<le> 2 ^ (bitSize - 1) then Some (- int n) else None)
          else
            (case ParseUint (if c = CHR ''+'' then cs else s) bitSize of
               None \<Rightarrow> None
             | Some n \<Rightarrow> if n < 2 ^ (bitSize - 1) then Some (int n) else None))"

text \<open>
  Decoding into the struct \<open>jsonResult\<close>. A member is stored into the field of the same
  name or else into the first field whose name equals it under case folding; other
  members are skipped. Null leaves a number field as it is, a number must fit the
  field's type, and any other JSON value stored into a number field is an error. The
  field \<open>Value\<close>, of type \<open>any\<close>, takes every JSON value. At the top, null leaves the
  struct zero and anything but an object is an error.
\<close>

definition json_kind :: "json \<Rightarrow> string" where
  "json_kind j =
     (case j of
        JNull \<Rightarrow> ''null''
      | JBool b \<Rightarrow> ''bool''
      | JNumber t \<Rightarrow> ''number '' @ t
      | JString x \<Rightarrow> ''string''
      | JArray xs \<Rightarrow> ''array''
      | JObject ms \<Rightarrow> ''object'')"

definition type_error :: "json \<Rightarrow> string \<Rightarrow> string \<Rightarrow> string" where
  "type_error j f ty =
     ''json: cannot unmarshal '' @ json_kind j @ '' into Go struct field jsonResult.'' @ f @
     '' of type '' @ ty"

definition field_named :: "codec \<Rightarrow> string \<Rightarrow> string option" where
  "field_named T n =
     (let fields = [''Key'', ''Tag'', ''Error'', ''Value''] in
      if n \<in> set fields then Some n
      else find (\<lambda>f. foldName T f = foldName T n) fields)"

definition decode_uint :: "json \<Rightarrow> nat \<Rightarrow> string \<Rightarrow> string \<Rightarrow> string + nat option" where
  "decode_uint j bitSize f ty =
     (case j of
        JNull \<Rightarrow> Inr None
      | JNumber t \<Rightarrow>
         (case ParseUint t bitSize of
            None \<Rightarrow> Inl (type_error j f ty)
          | Some n \<Rightarrow> Inr (Some n))
      | _ \<Rightarrow> Inl (type_error j f ty))"

definition decode_int :: "json \<Rightarrow> nat \<Rightarrow> string \<Rightarrow> string \<Rightarrow> string + int option" where
  "decode_int j bitSize f ty =
     (case j of
        JNull \<Rightarrow> Inr None
      | JNumber t \<Rightarrow>
         (case ParseInt t bitSize of
            None \<Rightarrow> Inl (type_error j f ty)
          | Some n \<Rightarrow> Inr (Some n))
      | _ \<Rightarrow> Inl (type_error j f ty))"

definition decode_member :: "codec \<Rightarrow> jsonResult \<Rightarrow> string \<times> json \<Rightarrow> string + jsonResult" where
  "decode_member T jr m =
     (case field_named T (fst m) of
        None \<Rightarrow> Inr jr
      | Some f \<Rightarrow>
          if f = ''Key'' then
            (case decode_uint (snd m) 32 f ''uint32'' of
               Inl err \<Rightarrow> Inl err
             | Inr None \<Rightarrow> Inr jr
             | Inr (Some n) \<Rightarrow> Inr (jr\<lparr>Key := of_nat n\<rparr>))
          else if f = ''Tag'' then
            (case decode_uint (snd m) 64 f ''uint64'' of
               Inl err \<Rightarrow> Inl err
             | Inr None \<Rightarrow> Inr jr
             | Inr (Some n) \<Rightarrow> Inr (jr\<lparr>Tag := of_nat n\<rparr>))
          else if f = ''Error'' then
            (case decode_int (snd m) 32 f ''int32'' of
               Inl err \<Rightarrow> Inl err
             | Inr None \<Rightarrow> Inr jr
             | Inr (Some i) \<Rightarrow> Inr (jr\<lparr>Error := of_int i\<rparr>))
          else
            (case decode_any T (snd m) of
               Inl err \<Rightarrow> Inl err
             | Inr a \<Rightarrow> Inr (jr\<lparr>Value := a\<rparr>)))"

fun decode_members :: "codec \<Rightarrow> jsonResult \<Rightarrow> (string \<times> json) list \<Rightarrow> string + jsonResult"
  where
  "decode_members T jr [] = Inr jr"
| "decode_members T jr (m # ms) =
     (case decode_member T jr m of
        Inl err \<Rightarrow> Inl err
      | Inr jr' \<Rightarrow> decode_members T jr' ms)"

definition decode_jsonResult :: "codec \<Rightarrow> json \<Rightarrow> string + jsonResult" where
  "decode_jsonResult T j =
     (let jr = \<lparr>Key = 0, Tag = 0, Error = 0, Value = ANil\<rparr> in
      case j of
        JNull \<Rightarrow> Inr jr
      | JObject ms \<Rightarrow> decode_members T jr ms
      | _ \<Rightarrow>
          Inl (''json: cannot unmarshal '' @ json_kind j @
               '' into Go value of type result.jsonResult''))"

text \<open>Encoding the struct \<open>jsonResult\<close>: its four fields in the order of the declaration.\<close>

definition encode_jsonResult :: "codec \<Rightarrow> jsonResult \<Rightarrow> string + json" where
  "encode_jsonResult T x =
     (case encode_any T (Value x) of
        Inl err \<Rightarrow> Inl err
      | Inr v \<Rightarrow>
          Inr (JObject
            [(''Key'', JNumber (fmt_d (uint (Key x)))),
             (''Tag'', JNumber (fmt_d (uint (Tag x)))),
             (''Error'', JNumber (fmt_d (sint (Error x)))),
             (''Value'', v)]))"

text \<open>
  The environment in which \<open>json.Marshal\<close> and \<open>json.Unmarshal\<close> are the functions above
  over the text layer of \<open>T\<close>.
\<close>

definition json_env ::
  "codec \<Rightarrow> (uint32 \<Rightarrow> string + Key) \<Rightarrow> ((string \<times> any) list \<Rightarrow> string) \<Rightarrow> env" where
  "json_env T cat fv =
     \<lparr>json_Unmarshal =
        (\<lambda>data. case text_parse T data of
                  Inl err \<Rightarrow> Inl err
                | Inr j \<Rightarrow> decode_jsonResult T j),
      json_Marshal =
        (\<lambda>x. case encode_jsonResult T x of
               Inl err \<Rightarrow> Inl err
             | Inr j \<Rightarrow> Inr (text_render T j)),
      key_FromSubType = cat, fmt_v = fv\<rparr>"

text \<open>
  The values that pass through JSON unchanged, among the scalars: nil, a boolean, a
  string of valid UTF-8, and a finite float64 (whose text \<open>strconv.ParseFloat\<close> reads back
  to the same float64).
\<close>

fun json_stable :: "codec \<Rightarrow> any \<Rightarrow> bool" where
  "json_stable T ANil = True"
| "json_stable T (ABool b) = True"
| "json_stable T (AString s) = (coerce_utf8 s = s)"
| "json_stable T (AFloat64 f) =
     (\<not> IsNaN_or_IsInf f \<and> float_parse T (float_text T f) = Inr f)"
| "json_stable T v = False"

text \<open>
  The bytes that \<open>MarshalJSON\<close> returns: with an error (or a panic) it returns none.
\<close>

definition MarshalJSON_bytes :: "env \<Rightarrow> Result \<Rightarrow> byte list" where
  "MarshalJSON_bytes E r = (case MarshalJSON E r of Inr (Inr data) \<Rightarrow> data | _ \<Rightarrow> [])"

text \<open>A Result that carries an error: a non-zero code and a description.\<close>

definition reports_error :: "Result \<Rightarrow> bool" where
  "reports_error r = (ErrorCode r \<noteq> 0 \<and> \<not> Succeeded r \<and> ErrorDesc r \<noteq> [])"

section \<open>Events, tokens and the bridge\<close>

text \<open>
  Modelled from the spec: package \<open>event\<close> is not among the sources. An event is a
  mutable envelope of a type and a numeric sub-type; the sub-type is 0 at first and
  \<open>ResetSubType\<close> rewrites it, changing nothing else.
\<close>

datatype EventType =
    TypeConnection
  | TypeStartVideo
  | TypeStopVideo
  | TypeGetNativeTexture
  | TypeVideoTransferSpeed
  | TypeVideoDataRecv

record Event =
  etype :: EventType
  subType :: uint64

definition NewFromType :: "EventType \<Rightarrow> Event" where
  "NewFromType t = \<lparr>etype = t, subType = 0\<rparr>"

definition ResetSubType :: "uint64 \<Rightarrow> Event \<Rightarrow> Event" where
  "ResetSubType n e = e\<lparr>subType := n\<rparr>"

text \<open>
  Modelled from the spec: package \<open>token\<close> is not among the sources. Tokens are
  generated in increasing order and never reused: the generator is a counter, and
  \<open>Next\<close> steps it and returns the new count.
\<close>

type_synonym Token = nat

definition NewGenerator :: nat where
  "NewGenerator = 0"

definition Next :: "nat \<Rightarrow> Token \<times> nat" where
  "Next g = (Suc g, Suc g)"

text \<open>
  Modelled from the spec: the beacon of a discovery, the device's address and its
  application identifier. An address (\<open>net.IP\<close>) is a list of bytes.
\<close>

type_synonym IP = "byte list"

record Beacon =
  sourceIp :: IP
  appId :: uint64

text \<open>A Go \<open>error\<close>: \<open>None\<close> is nil, \<open>Some\<close> carries the message.\<close>

type_synonym error = "string option"

text \<open>
  The steps a module takes that are seen from outside it: the calls on the bridge
  and on the finder, with their arguments (a listener's callback is left out), and
  the entry into the wait for a change of the connection status.
\<close>

datatype step =
    CAddKeyListener Key bool
  | CRemoveKeyListener Key Token
  | CSendEvent Event
  | CSendEventWithString Event string
  | CSendEventWithUint64 Event uint64
  | CFind nat
  | CSendACK IP uint64
  | CWaitForConnectionStatusChange

text \<open>
  The bridge and the finder are outside the code. What they return is a parameter:
  each answer may depend on all the steps taken so far (the first argument) and on
  the call's arguments. \<open>keyAirLinkConnection\<close> is the catalog's key of that name and
  \<open>IP_String\<close> is \<open>net.IP\<close>'s \<open>String()\<close>.
\<close>

record UnityBridge =
  ub_AddKeyListener :: "step list \<Rightarrow> Key \<Rightarrow> bool \<Rightarrow> string + Token"
  ub_RemoveKeyListener :: "step list \<Rightarrow> Key \<Rightarrow> Token \<Rightarrow> error"
  ub_SendEvent :: "step list \<Rightarrow> Event \<Rightarrow> error"
  ub_SendEventWithString :: "step list \<Rightarrow> Event \<Rightarrow> string \<Rightarrow> error"
  ub_SendEventWithUint64 :: "step list \<Rightarrow> Event \<Rightarrow> uint64 \<Rightarrow> error"
  f_Find :: "step list \<Rightarrow> nat \<Rightarrow> string + Beacon"
  keyAirLinkConnection :: Key
  IP_String :: "IP \<Rightarrow> string"

section \<open>Connection (package manager)\<close>

text \<open>
  \<^verbatim>\<open>const ( subTypeConnectionOpen = iota; subTypeConnectionClose;
          subTypeConnectionSetIP; subTypeConnectionSetPort )\<close>
\<close>

definition subTypeConnectionOpen :: uint64 where
  "subTypeConnectionOpen = 0"

definition subTypeConnectionClose :: uint64 where
  "subTypeConnectionClose = 1"

definition subTypeConnectionSetIP :: uint64 where
  "subTypeConnectionSetIP = 2"

definition subTypeConnectionSetPort :: uint64 where
  "subTypeConnectionSetPort = 3"

text \<open>
  The fields of \<open>Connection\<close> that the code writes: the token of the status listener and
  the flag \<open>connected\<close>. \<open>broadcasts\<close> counts the calls of \<open>cond.Broadcast()\<close>.
\<close>

record Connection =
  connectionStatusToken :: Token
  connected :: bool
  broadcasts :: nat

text \<open>
  \<open>connectionStatusChanged\<close>, the listener's callback: a value that is not a bool is
  logged and dropped; a bool that differs from the flag is stored under the mutex
  and broadcast; a bool equal to the flag changes nothing.
\<close>

definition connectionStatusChanged :: "Result \<Rightarrow> Connection \<Rightarrow> Connection" where
  "connectionStatusChanged r cm =
     (case Result_Value r of
        ABool connected' \<Rightarrow>
          if connected cm \<noteq> connected' then
            cm\<lparr>connected := connected', broadcasts := Suc (broadcasts cm)\<rparr>
          else cm
      | _ \<Rightarrow> cm)"

text \<open>
  What the other threads do while a caller waits, in the order in which the mutex
  serialises it: \<open>Callback r\<close> is one run of the listener's callback on the result
  \<open>r\<close>; \<open>Wakeup\<close> is one return of the waiter's \<open>cond.Wait()\<close>, be it after a broadcast
  or spurious. A schedule is any finite sequence of the two.
\<close>

datatype sched = Callback Result | Wakeup

text \<open>
  \<open>cond.Wait()\<close> releases the mutex and suspends the caller; callbacks run until the
  caller is woken, and it returns holding the mutex again. \<open>None\<close>: the schedule ends
  with the caller still suspended.
\<close>

fun cond_Wait :: "sched list \<Rightarrow> Connection \<Rightarrow> (Connection \<times> sched list) option" where
  "cond_Wait [] cm = None"
| "cond_Wait (Callback r # es) cm = cond_Wait es (connectionStatusChanged r cm)"
| "cond_Wait (Wakeup # es) cm = Some (cm, es)"

text \<open>
  \<^verbatim>\<open>for cm.connected == current { cm.cond.Wait() }\<close>
\<close>

function waitLoop :: "bool \<Rightarrow> sched list \<Rightarrow> Connection \<Rightarrow> (Connection \<times> sched list) option"
  where
  "waitLoop current es cm =
     (if connected cm = current then
        (case cond_Wait es cm of
           None \<Rightarrow> None
         | Some (cm', es') \<Rightarrow> waitLoop current es' cm')
      else Some (cm, es))"
  by pat_completeness auto
termination
proof -
  have shorter: "cond_Wait es cm = Some (cm', es') \<Longrightarrow> length es' < length es"
    for es cm cm' es'
    by (induction es cm rule: cond_Wait.induct) auto
  show ?thesis
    by (relation "measure (\<lambda>(current, es, cm). length es)") (auto dest: shorter)
qed

declare waitLoop.simps [simp del]

text \<open>The connection after a part of a schedule has happened: its callbacks have run.\<close>

definition after :: "sched list \<Rightarrow> Connection \<Rightarrow> Connection" where
  "after used cm =
     fold (\<lambda>x c. case x of Callback r \<Rightarrow> connectionStatusChanged r c | Wakeup \<Rightarrow> c) used cm"

text \<open>
  \<open>waitForConnectionStatusChange\<close>: the snapshot \<open>current\<close> is taken under the mutex,
  then the loop runs. The result is the connection and the rest of the schedule when
  the call returns, and \<open>None\<close> when the schedule ends with the call still blocked.
\<close>

definition waitForConnectionStatusChange ::
  "sched list \<Rightarrow> Connection \<Rightarrow> (Connection \<times> sched list) option" where
  "waitForConnectionStatusChange es cm =
     (let current = connected cm in waitLoop current es cm)"

text \<open>How a call ends: it returns an error or nil, or it never returns.\<close>

datatype outcome = Returned error | Blocked

record run =
  result :: outcome
  conn :: Connection
  steps :: "step list"

text \<open>
  \<open>Start\<close>. \<open>L\<close> holds the steps taken before the call. The callbacks \<open>early\<close> are those
  that the listener receives after its registration and before \<open>Start\<close> enters the
  wait; \<open>Start\<close> reads the flag only there, so they take effect at that point. \<open>es\<close> is
  the schedule during the wait.
\<close>

definition Start ::
  "UnityBridge \<Rightarrow> Result list \<Rightarrow> sched list \<Rightarrow> Connection \<Rightarrow> step list \<Rightarrow> run" where
  "Start B early es cm L =
     (let L1 = L @ [CAddKeyListener (keyAirLinkConnection B) False] in
      case ub_AddKeyListener B L (keyAirLinkConnection B) False of
        Inl err \<Rightarrow> \<lparr>result = Returned (Some err), conn = cm, steps = L1\<rparr>
      | Inr token \<Rightarrow>
          let cm1 = cm\<lparr>connectionStatusToken := token\<rparr>;
              L2 = L1 @ [CFind 30]
          in
            case f_Find B L1 30 of
              Inl err \<Rightarrow> \<lparr>result = Returned (Some err), conn = cm1, steps = L2\<rparr>
            | Inr b \<Rightarrow>
                let L3 = L2 @ [CSendACK (sourceIp b) (appId b)];
                    e = NewFromType TypeConnection;
                    e1 = ResetSubType subTypeConnectionClose e;
                    err1 = ub_SendEvent B L3 e1;
                    L4 = L3 @ [CSendEvent e1]
                in
                  if err1 \<noteq> None then \<lparr>result = Returned err1, conn = cm1, steps = L4\<rparr>
                  else
                    let e2 = ResetSubType subTypeConnectionSetIP e1;
                        err2 = ub_SendEventWithString B L4 e2 (IP_String B (sourceIp b));
                        L5 = L4 @ [CSendEventWithString e2 (IP_String B (sourceIp b))]
                    in
                      if err2 \<noteq> None then
                        \<lparr>result = Returned err2, conn = cm1, steps = L5\<rparr>
                      else
                        let e3 = ResetSubType subTypeConnectionSetPort e2;
                            err3 = ub_SendEventWithUint64 B L5 e3 10607;
                            L6 = L5 @ [CSendEventWithUint64 e3 10607]
                        in
                          if err3 \<noteq> None then
                            \<lparr>result = Returned err3, conn = cm1, steps = L6\<rparr>
                          else
                            let e4 = ResetSubType subTypeConnectionOpen e3;
                                err4 = ub_SendEvent B L6 e4;
                                L7 = L6 @ [CSendEvent e4]
                            in
                              if err4 \<noteq> None then
                                \<lparr>result = Returned err4, conn = cm1, steps = L7\<rparr>
                              else
                                let cm2 = fold connectionStatusChanged early cm1;
                                    L8 = L7 @ [CWaitForConnectionStatusChange]
                                in
                                  case waitForConnectionStatusChange es cm2 of
                                    None \<Rightarrow>
                                      \<lparr>result = Blocked, conn = cm2, steps = L8\<rparr>
                                  | Some (cm3, es') \<Rightarrow>
                                      \<lparr>result = Returned None, conn = cm3, steps = L8\<rparr>)"

section \<open>Camera (package camera)\<close>

text \<open>
  The fields of \<open>Camera\<close> that the two functions below use: the token generator
  \<open>tg\<close>, the table \<open>callbacks\<close>, and \<open>ub\<close>, the bridge of the embedded base module, held
  as the steps taken on it so far. A callback is a value of any type \<open>'cb\<close>; an
  argument of type \<open>VideoCallback\<close> may be nil, which is \<open>None\<close>.
\<close>

record 'cb Camera =
  tg :: nat
  callbacks :: "(Token, 'cb) fmap"
  ub :: "step list"

text \<open>Go's \<open>len\<close> of a map.\<close>

definition map_len :: "('k, 'v) fmap \<Rightarrow> nat" where
  "map_len m = fcard (fmdom m)"

text \<open>\<open>camera.New\<close>: a fresh generator and an empty table, on a bridge with the steps \<open>L\<close>.\<close>

definition New_Camera :: "step list \<Rightarrow> 'cb Camera" where
  "New_Camera L = \<lparr>tg = NewGenerator, callbacks = fmempty, ub = L\<rparr>"

definition AddVideoCallback ::
  "UnityBridge \<Rightarrow> 'cb option \<Rightarrow> 'cb Camera \<Rightarrow> (Token \<times> error) \<times> 'cb Camera" where
  "AddVideoCallback B vc c =
     (case vc of
        None \<Rightarrow> ((0, Some ''callback must not be nil''), c)
      | Some f \<Rightarrow>
         (let (t, g) = Next (tg c);
              c1 = c\<lparr>tg := g, callbacks := fmupd t f (callbacks c)\<rparr>
          in
            if map_len (callbacks c1) = 1 then
              (let e = NewFromType TypeStartVideo;
                   err = ub_SendEvent B (ub c1) e;
                   c2 = c1\<lparr>ub := ub c1 @ [CSendEvent e]\<rparr>
               in if err \<noteq> None then ((0, err), c2) else ((t, None), c2))
            else ((t, None), c1)))"

definition RemoveVideoCallback ::
  "UnityBridge \<Rightarrow> Token \<Rightarrow> 'cb Camera \<Rightarrow> error \<times> 'cb Camera" where
  "RemoveVideoCallback B t c =
     (case fmlookup (callbacks c) t of
        None \<Rightarrow> (Some (''no callback added for token '' @ fmt_d (int t)), c)
      | Some f \<Rightarrow>
         (let c1 = c\<lparr>callbacks := fmdrop t (callbacks c)\<rparr> in
            if map_len (callbacks c1) = 0 then
              (let e = NewFromType TypeStopVideo;
                   err = ub_SendEvent B (ub c1) e;
                   c2 = c1\<lparr>ub := ub c1 @ [CSendEvent e]\<rparr>
               in if err \<noteq> None then (err, c2) else (None, c2))
            else (None, c1)))"

text \<open>Calls in sequence: each on the camera that the call before it left.\<close>

fun add_all ::
  "UnityBridge \<Rightarrow> 'cb option list \<Rightarrow> 'cb Camera \<Rightarrow> (Token \<times> error) list \<times> 'cb Camera"
  where
  "add_all B [] c = ([], c)"
| "add_all B (vc # vcs) c =
     (let (r, c1) = AddVideoCallback B vc c;
          (rs, c2) = add_all B vcs c1
      in (r # rs, c2))"

fun remove_all ::
  "UnityBridge \<Rightarrow> Token list \<Rightarrow> 'cb Camera \<Rightarrow> error list \<times> 'cb Camera" where
  "remove_all B [] c = ([], c)"
| "remove_all B (t # ts) c =
     (let (r, c1) = RemoveVideoCallback B t c;
          (rs, c2) = remove_all B ts c1
      in (r # rs, c2))"

section \<open>Sample inputs\<close>

text \<open>The two envelopes of the spec's decoding examples, as bytes.\<close>

definition envelope_ok :: "byte list" where
  \<open>envelope_ok = ''{"Key":5,"Tag":42,"Error":0,"Value":{"value":true}}''\<close>

definition envelope_error :: "byte list" where
  \<open>envelope_error = ''{"Key":5,"Tag":42,"Error":7,"Value":null}''\<close>

text \<open>Further inputs: a wrapper without a \<open>value\<close> member, a wrapper inside a wrapper,
  an unknown key, and bytes that are not JSON.\<close>

definition envelope_other :: "byte list" where
  \<open>envelope_other = ''{"Key":5,"Tag":42,"Error":0,"Value":{"other":true}}''\<close>

definition envelope_nested :: "byte list" where
  \<open>envelope_nested = ''{"Key":5,"Tag":42,"Error":0,"Value":{"value":{"value":true}}}''\<close>

definition envelope_unknown_key :: "byte list" where
  \<open>envelope_unknown_key = ''{"Key":9,"Tag":1,"Error":0,"Value":1}''\<close>

definition not_json :: "byte list" where
  \<open>not_json = ''{"Key":''\<close>

text \<open>
  An environment for the sample inputs: what \<open>json.Unmarshal\<close> gives on each of them
  (an error on any other input), a catalog that knows the sub-type 5 only, and
  \<open>json.Marshal\<close> on the envelope of that key with tag 42, no error and the value true.
\<close>

definition sample_Unmarshal :: "byte list \<Rightarrow> string + jsonResult" where
  "sample_Unmarshal d =
     (if d = envelope_ok then
        Inr \<lparr>Key = 5, Tag = 42, Error = 0, Value = AMap [(''value'', ABool True)]\<rparr>
      else if d = envelope_error then
        Inr \<lparr>Key = 5, Tag = 42, Error = 7, Value = ANil\<rparr>
      else if d = envelope_other then
        Inr \<lparr>Key = 5, Tag = 42, Error = 0, Value = AMap [(''other'', ABool True)]\<rparr>
      else if d = envelope_nested then
        Inr \<lparr>Key = 5, Tag = 42, Error = 0,
             Value = AMap [(''value'', AMap [(''value'', ABool True)])]\<rparr>
      else if d = envelope_unknown_key then
        Inr \<lparr>Key = 9, Tag = 1, Error = 0, Value = AFloat64 0x3FF0000000000000\<rparr>
      else Inl ''unexpected end of JSON input'')"

definition sample_Marshal :: "jsonResult \<Rightarrow> string + byte list" where
  "sample_Marshal jr =
     (if jr = \<lparr>Key = 5, Tag = 42, Error = 0, Value = AjsonResultValue (ABool True)\<rparr>
      then Inr envelope_ok
      else Inl ''json: unsupported value'')"

definition sample_FromSubType :: "uint32 \<Rightarrow> string + Key" where
  "sample_FromSubType n = (if n = 5 then Inr (MkKey 5) else Inl ''invalid sub type'')"

text \<open>
  \<open>fmt\<close>'s \<open>%v\<close> on the maps of the sample inputs: the members as \<open>key:value\<close> inside
  \<open>map[...]\<close>.
\<close>

definition sample_fmt_v :: "(string \<times> any) list \<Rightarrow> string" where
  "sample_fmt_v m =
     (if m = [(''other'', ABool True)] then ''map[other:true]''
      else if m = [(''value'', ABool True)] then ''map[value:true]''
      else if m = [(''value'', AMap [(''value'', ABool True)])] then ''map[value:map[value:true]]''
      else ''map[]'')"

definition sample_env :: env where
  "sample_env =
     \<lparr>json_Unmarshal = sample_Unmarshal, json_Marshal = sample_Marshal,
      key_FromSubType = sample_FromSubType, fmt_v = sample_fmt_v\<rparr>"


text \<open>
  A beacon, a connection that is not connected, a status result carrying a value, and
  bridges for the sample runs: \<open>bridge_failing_at p\<close> lets the call named by \<open>p\<close> fail
  and every other call succeed.
\<close>

datatype failure_point = AtFind | AtClose | AtSetIP | AtSetPort | AtOpen | Nowhere

definition sample_Beacon :: Beacon where
  "sample_Beacon = \<lparr>sourceIp = [CHR 0xC0, CHR 0xA8, CHR 0x02, CHR 0x01], appId = 7\<rparr>"

definition bridge_failing_at :: "failure_point \<Rightarrow> UnityBridge" where
  "bridge_failing_at n =
     \<lparr>ub_AddKeyListener = (\<lambda>L k i. Inr 1),
      ub_RemoveKeyListener = (\<lambda>L k t. None),
      ub_SendEvent =
        (\<lambda>L e. if (n = AtClose \<and> subType e = 1) \<or> (n = AtOpen \<and> subType e = 0)
               then Some ''send failed'' else None),
      ub_SendEventWithString = (\<lambda>L e x. if n = AtSetIP then Some ''send failed'' else None),
      ub_SendEventWithUint64 =
        (\<lambda>L e v. if n = AtSetPort then Some ''send failed'' else None),
      f_Find = (\<lambda>L t. if n = AtFind then Inl ''no robot found'' else Inr sample_Beacon),
      keyAirLinkConnection = MkKey 117440513,
      IP_String = (\<lambda>ip. ''192.168.2.1'')\<rparr>"

definition sample_bridge :: UnityBridge where
  "sample_bridge = bridge_failing_at Nowhere"

definition sample_Connection :: Connection where
  "sample_Connection = \<lparr>connectionStatusToken = 0, connected = False, broadcasts = 0\<rparr>"

definition status :: "any \<Rightarrow> Result" where
  "status v = New None 0 0 [] v"

text \<open>The steps of a run of \<open>Start\<close> on the sample bridge, up to the open event.\<close>

definition sample_steps :: "step list" where
  "sample_steps =
     [CAddKeyListener (MkKey 117440513) False, CFind 30,
      CSendACK [CHR 0xC0, CHR 0xA8, CHR 0x02, CHR 0x01] 7,
      CSendEvent \<lparr>etype = TypeConnection, subType = 1\<rparr>,
      CSendEventWithString \<lparr>etype = TypeConnection, subType = 2\<rparr> ''192.168.2.1'',
      CSendEventWithUint64 \<lparr>etype = TypeConnection, subType = 3\<rparr> 10607,
      CSendEvent \<lparr>etype = TypeConnection, subType = 0\<rparr>]"

text \<open>
  A text layer for two envelopes of the key 5 with tag 42 and no error, one with the
  value true and one with the string \<open>hi\<close>; the \<open>'g'\<close> format of a NaN and of the
  infinities; names fold to themselves.
\<close>

definition envelope_hi :: "byte list" where
  \<open>envelope_hi = ''{"Key":5,"Tag":42,"Error":0,"Value":{"value":"hi"}}''\<close>

definition sample_tree :: "json \<Rightarrow> json" where
  "sample_tree jv =
     JObject [(''Key'', JNumber ''5''), (''Tag'', JNumber ''42''), (''Error'', JNumber ''0''),
              (''Value'', JObject [(''value'', jv)])]"

definition sample_codec :: codec where
  "sample_codec =
     \<lparr>text_render =
        (\<lambda>j. if j = sample_tree (JBool True) then envelope_ok
             else if j = sample_tree (JString ''hi'') then envelope_hi
             else ''null''),
      text_parse =
        (\<lambda>d. if d = envelope_ok then Inr (sample_tree (JBool True))
             else if d = envelope_hi then Inr (sample_tree (JString ''hi''))
             else Inl ''invalid character''),
      float_text = (\<lambda>f. ''0''),
      float_parse = (\<lambda>t. Inr 0),
      float_g =
        (\<lambda>f. if take_bit 52 f \<noteq> 0 then ''NaN'' else if bit f 63 then ''-Inf'' else ''+Inf''),
      encode_other = (\<lambda>v. Inl ''json: not modelled''),
      foldName = (\<lambda>n. n)\<rparr>"

definition sample_json_env :: env where
  "sample_json_env = json_env sample_codec sample_FromSubType sample_fmt_v"

section \<open>Theorems\<close>

subsection \<open>Tag codec\<close>

lemma mask_48: "(0x0000ffffffffffff :: uint64) = mask 48"
  by (simp add: mask_eq_exp_minus_1)

lemma mask_8: "(0xff :: uint64) = mask 8"
  by (simp add: mask_eq_exp_minus_1)

lemma bit_below: "(w :: uint64) < 2 ^ k \<Longrightarrow> bit w n \<Longrightarrow> n < k"
proof -
  assume lt: "w < 2 ^ k" and b: "bit w n"
  from lt have "w AND mask k = w" by (rule less_mask_eq)
  then have "bit (w AND mask k) n" using b by simp
  then show "n < k" by (simp add: bit_simps)
qed

lemma Decode_Encode_byte:
  assumes d: "d < 2 ^ 8" and s: "s < 2 ^ 48"
  shows "Decode (Encode d s) = (d, s)"
proof -
  have hi: "(drop_bit 56 (push_bit 56 d OR s)) AND mask 8 = d"
    by (rule bit_word_eqI)
      (auto simp add: bit_simps dest: bit_below [OF d] bit_below [OF s])
  have lo: "(push_bit 56 d OR s) AND mask 48 = s"
    by (rule bit_word_eqI)
      (auto simp add: bit_simps dest: bit_below [OF d] bit_below [OF s])
  show ?thesis
    unfolding Decode_def Encode_def callbackHandler_dataType_def callbackHandler_tag_def
      mask_48 mask_8
    using hi lo by simp
qed

text \<open>
  C4. For a discriminator \<open>d\<close> that is 0 or 1 and a sequence number \<open>s\<close> below \<open>2^48\<close>,
  decoding the tag \<open>(d << 56) | s\<close> as the callback handler does, the data type as
  \<open>(tag >> 56) & 0xff\<close> and the sequence as \<open>tag & 0x0000ffffffffffff\<close>, gives back
  exactly \<open>(d, s)\<close>.
\<close>

theorem tag_roundtrip:
  assumes "d = 0 \<or> d = 1" and "s < 2 ^ 48"
  shows "Decode (Encode d s) = (d, s)"
proof -
  from assms(1) have "d < 2 ^ 8" by auto
  then show ?thesis using assms(2) by (rule Decode_Encode_byte)
qed

theorem tag_roundtrip_witness:
  "((1::uint64) = 0 \<or> (1::uint64) = 1) \<and> (12345::uint64) < 2 ^ 48 \<and>
   Decode (Encode 1 12345) = (1, 12345)"
  using tag_roundtrip [of 1 12345] by simp

subsection \<open>The success flag of a Result\<close>

lemma Succeeded_mutate: "Succeeded (mutate m r) = (ErrorCode (mutate m r) = 0)"
  by (simp add: Succeeded_def ErrorCode_def)

text \<open>
  C3. For every Result \<open>r\<close>, \<open>Succeeded()\<close> is true exactly when the error code is 0.
  This holds of any Result, so also after any run of the mutators \<open>SetErrorCode\<close>,
  \<open>SetErrorDesc\<close>, \<open>SetValue\<close> and \<open>SetKey\<close>, and of the Results built by \<open>New\<close> and by
  \<open>NewFromJSON\<close>. Only \<open>SetErrorCode\<close> changes the flag: after it the flag says whether
  the code just set is 0, and \<open>New\<close> gives the flag of the code it was passed.
\<close>

theorem Succeeded_iff_errorCode_zero:
  "Succeeded r = (ErrorCode r = 0) \<and>
   Succeeded (mutate_all ms r) = (ErrorCode (mutate_all ms r) = 0) \<and>
   Succeeded (New k t ec ed v) = (ErrorCode (New k t ec ed v) = 0) \<and>
   Succeeded (NewFromJSON E jsonData) = (ErrorCode (NewFromJSON E jsonData) = 0) \<and>
   Succeeded (SetErrorCode ec r) = (ec = 0) \<and>
   Succeeded (SetErrorDesc ed r) = Succeeded r \<and>
   Succeeded (SetValue v r) = Succeeded r \<and>
   Succeeded (SetKey k r) = Succeeded r \<and>
   Succeeded (New k t ec ed v) = (ec = 0)"
  by (simp add: Succeeded_def ErrorCode_def SetErrorCode_def SetErrorDesc_def
      SetValue_def SetKey_def New_def)

subsection \<open>Decoding an envelope\<close>

lemma NewFromJSON_empty:
  "NewFromJSON E [] =
     zero_Result\<lparr>errorCode := - 1, errorDesc := ''empty or nil json data''\<rparr>"
  by (simp add: NewFromJSON_def)

lemma NewFromJSON_Unmarshal_error:
  "jsonData \<noteq> [] \<Longrightarrow> json_Unmarshal E jsonData = Inl err \<Longrightarrow>
   NewFromJSON E jsonData =
     zero_Result\<lparr>errorCode := - 1,
       errorDesc := ''error unmarshalling json data: '' @ err\<rparr>"
  by (simp add: NewFromJSON_def)

lemma NewFromJSON_key_error:
  "jsonData \<noteq> [] \<Longrightarrow> json_Unmarshal E jsonData = Inr jr \<Longrightarrow>
   key_FromSubType E (Key jr) = Inl err \<Longrightarrow>
   NewFromJSON E jsonData =
     zero_Result\<lparr>errorCode := - 1,
       errorDesc := ''error creating key from sub type '' @
         fmt_d (uint (Key jr)) @ '': '' @ err\<rparr>"
  by (simp add: NewFromJSON_def)

lemma NewFromJSON_value_missing:
  "jsonData \<noteq> [] \<Longrightarrow> json_Unmarshal E jsonData = Inr jr \<Longrightarrow>
   key_FromSubType E (Key jr) = Inr k \<Longrightarrow>
   Value jr = AMap m \<Longrightarrow> map_of m ''value'' = None \<Longrightarrow>
   NewFromJSON E jsonData =
     zero_Result\<lparr>errorCode := - 1,
       errorDesc := ''value field not found: '' @ fmt_v E m\<rparr>"
  by (simp add: NewFromJSON_def)

lemma NewFromJSON_unwrap:
  "jsonData \<noteq> [] \<Longrightarrow> json_Unmarshal E jsonData = Inr jr \<Longrightarrow>
   key_FromSubType E (Key jr) = Inr k \<Longrightarrow>
   Value jr = AMap m \<Longrightarrow> map_of m ''value'' = Some v \<Longrightarrow>
   NewFromJSON E jsonData =
     \<lparr>key = Some k, tag = Tag jr, errorCode = Error jr,
      errorDesc = (if Error jr \<noteq> 0 then ''error '' @ fmt_d (sint (Error jr)) else []),
      value' = v\<rparr>"
  by (simp add: NewFromJSON_def zero_Result_def)

lemma NewFromJSON_as_is:
  "jsonData \<noteq> [] \<Longrightarrow> json_Unmarshal E jsonData = Inr jr \<Longrightarrow>
   key_FromSubType E (Key jr) = Inr k \<Longrightarrow>
   \<forall>m. Value jr \<noteq> AMap m \<Longrightarrow>
   NewFromJSON E jsonData =
     \<lparr>key = Some k, tag = Tag jr, errorCode = Error jr,
      errorDesc = (if Error jr \<noteq> 0 then ''error '' @ fmt_d (sint (Error jr)) else []),
      value' = Value jr\<rparr>"
  by (cases "Value jr") (simp_all add: NewFromJSON_def zero_Result_def)

lemma digits_not_empty: "digits n \<noteq> []"
  by (subst digits.simps) simp

lemma fmt_d_not_empty: "fmt_d i \<noteq> []"
  by (simp add: fmt_d_def digits_not_empty)

lemma sample_inputs_distinct:
  "envelope_ok \<noteq> envelope_error" "envelope_ok \<noteq> envelope_other"
  "envelope_ok \<noteq> envelope_nested" "envelope_ok \<noteq> envelope_unknown_key"
  "envelope_error \<noteq> envelope_other" "envelope_error \<noteq> envelope_nested"
  "envelope_error \<noteq> envelope_unknown_key" "envelope_other \<noteq> envelope_nested"
  "envelope_other \<noteq> envelope_unknown_key" "envelope_nested \<noteq> envelope_unknown_key"
  "not_json \<noteq> envelope_ok" "not_json \<noteq> envelope_error" "not_json \<noteq> envelope_other"
  "not_json \<noteq> envelope_nested" "not_json \<noteq> envelope_unknown_key"
  "envelope_ok \<noteq> []" "envelope_error \<noteq> []" "envelope_other \<noteq> []"
  "envelope_nested \<noteq> []" "envelope_unknown_key \<noteq> []" "not_json \<noteq> []"
  by (simp_all add: envelope_ok_def envelope_error_def envelope_other_def
      envelope_nested_def envelope_unknown_key_def not_json_def)

lemma sample_env_simps:
  "json_Unmarshal sample_env = sample_Unmarshal"
  "json_Marshal sample_env = sample_Marshal"
  "key_FromSubType sample_env = sample_FromSubType"
  "fmt_v sample_env = sample_fmt_v"
  by (simp_all add: sample_env_def)

lemma sample_Unmarshal_simps:
  "sample_Unmarshal envelope_ok =
     Inr \<lparr>Key = 5, Tag = 42, Error = 0, Value = AMap [(''value'', ABool True)]\<rparr>"
  "sample_Unmarshal envelope_error = Inr \<lparr>Key = 5, Tag = 42, Error = 7, Value = ANil\<rparr>"
  "sample_Unmarshal envelope_other =
     Inr \<lparr>Key = 5, Tag = 42, Error = 0, Value = AMap [(''other'', ABool True)]\<rparr>"
  "sample_Unmarshal envelope_nested =
     Inr \<lparr>Key = 5, Tag = 42, Error = 0,
          Value = AMap [(''value'', AMap [(''value'', ABool True)])]\<rparr>"
  "sample_Unmarshal envelope_unknown_key =
     Inr \<lparr>Key = 9, Tag = 1, Error = 0, Value = AFloat64 0x3FF0000000000000\<rparr>"
  "sample_Unmarshal not_json = Inl ''unexpected end of JSON input''"
  using sample_inputs_distinct by (simp_all add: sample_Unmarshal_def)

text \<open>
  C2. \<open>NewFromJSON\<close> is a total function with no failing step of its own: whatever the
  bytes, it returns a Result, and the errors of \<open>json.Unmarshal\<close> and of the key
  catalog end inside that Result. Empty input, an unmarshalling failure, an unknown
  key sub-type and a wrapper object without a \<open>value\<close> member each give a Result with
  a non-zero error code and a non-empty description. An envelope that decodes with a
  non-zero \<open>Error\<close> field, such as \<open>{"Key":5,"Tag":42,"Error":7,"Value":null}\<close>, gives
  a Result that has not succeeded and has a non-empty description.
\<close>

theorem NewFromJSON_reports_errors:
  "(jsonData = [] \<longrightarrow> reports_error (NewFromJSON E jsonData)) \<and>
   (\<forall>err. json_Unmarshal E jsonData = Inl err \<longrightarrow>
      reports_error (NewFromJSON E jsonData)) \<and>
   (\<forall>jr err. json_Unmarshal E jsonData = Inr jr \<and> key_FromSubType E (Key jr) = Inl err \<longrightarrow>
      reports_error (NewFromJSON E jsonData)) \<and>
   (\<forall>jr m. json_Unmarshal E jsonData = Inr jr \<and> Value jr = AMap m \<and>
      map_of m ''value'' = None \<longrightarrow>
      reports_error (NewFromJSON E jsonData)) \<and>
   (\<forall>jr. json_Unmarshal E jsonData = Inr jr \<and> Error jr \<noteq> 0 \<longrightarrow>
      \<not> Succeeded (NewFromJSON E jsonData) \<and> ErrorDesc (NewFromJSON E jsonData) \<noteq> []) \<and>
   (json_Unmarshal E envelope_error = Inr \<lparr>Key = 5, Tag = 42, Error = 7, Value = ANil\<rparr> \<longrightarrow>
      \<not> Succeeded (NewFromJSON E envelope_error) \<and>
      ErrorDesc (NewFromJSON E envelope_error) \<noteq> [])"
  by (auto simp add: NewFromJSON_def reports_error_def Succeeded_def ErrorCode_def
      ErrorDesc_def zero_Result_def Let_def fmt_d_not_empty
      split: sum.splits any.splits option.splits)

theorem NewFromJSON_reports_errors_witness:
  "reports_error (NewFromJSON sample_env []) \<and>
   json_Unmarshal sample_env not_json = Inl ''unexpected end of JSON input'' \<and>
   reports_error (NewFromJSON sample_env not_json) \<and>
   json_Unmarshal sample_env envelope_unknown_key =
     Inr \<lparr>Key = 9, Tag = 1, Error = 0, Value = AFloat64 0x3FF0000000000000\<rparr> \<and>
   key_FromSubType sample_env 9 = Inl ''invalid sub type'' \<and>
   reports_error (NewFromJSON sample_env envelope_unknown_key) \<and>
   json_Unmarshal sample_env envelope_other =
     Inr \<lparr>Key = 5, Tag = 42, Error = 0, Value = AMap [(''other'', ABool True)]\<rparr> \<and>
   map_of [(''other'', ABool True)] ''value'' = None \<and>
   reports_error (NewFromJSON sample_env envelope_other) \<and>
   json_Unmarshal sample_env envelope_error =
     Inr \<lparr>Key = 5, Tag = 42, Error = 7, Value = ANil\<rparr> \<and>
   \<not> Succeeded (NewFromJSON sample_env envelope_error) \<and>
   ErrorDesc (NewFromJSON sample_env envelope_error) \<noteq> []"
  using NewFromJSON_reports_errors [of "[]" sample_env]
    NewFromJSON_reports_errors [of not_json sample_env]
    NewFromJSON_reports_errors [of envelope_unknown_key sample_env]
    NewFromJSON_reports_errors [of envelope_other sample_env]
    NewFromJSON_reports_errors [of envelope_error sample_env]
  by (simp add: sample_env_simps sample_Unmarshal_simps sample_FromSubType_def)

text \<open>
  C1, as the code has it. If \<open>json.Unmarshal\<close> decodes the envelope
  \<open>{"Key":5,"Tag":42,"Error":0,"Value":{"value":true}}\<close> to key 5, tag 42, error 0 and
  the wrapper object, and 5 is a sub-type of the key catalog, the Result has succeeded,
  has tag 42 and has the boolean value true. In general, for a decoded envelope with a
  known key: when \<open>Value\<close> is a JSON object with a \<open>value\<close> member, the Result's value is
  that member's content, whatever it is (a wrapper inside it stays); when \<open>Value\<close> is
  not a JSON object, it is the Result's value as it is; when \<open>Value\<close> is a JSON object
  without a \<open>value\<close> member, the Result has the error code -1 and the description
  \<open>value field not found:\<close> followed by the object as \<open>fmt\<close> prints it, and it has no key,
  no value and the tag 0.
\<close>

theorem NewFromJSON_unwraps_once:
  "(json_Unmarshal E envelope_ok =
      Inr \<lparr>Key = 5, Tag = 42, Error = 0, Value = AMap [(''value'', ABool True)]\<rparr> \<and>
    key_FromSubType E 5 = Inr k5 \<longrightarrow>
      Succeeded (NewFromJSON E envelope_ok) \<and>
      Result_Tag (NewFromJSON E envelope_ok) = 42 \<and>
      Result_Value (NewFromJSON E envelope_ok) = ABool True) \<and>
   (jsonData \<noteq> [] \<and> json_Unmarshal E jsonData = Inr jr \<and>
    key_FromSubType E (Key jr) = Inr k \<longrightarrow>
      (\<forall>m v. Value jr = AMap m \<and> map_of m ''value'' = Some v \<longrightarrow>
         Result_Value (NewFromJSON E jsonData) = v \<and>
         Result_Key (NewFromJSON E jsonData) = Some k \<and>
         Result_Tag (NewFromJSON E jsonData) = Tag jr \<and>
         ErrorCode (NewFromJSON E jsonData) = Error jr) \<and>
      ((\<forall>m. Value jr \<noteq> AMap m) \<longrightarrow>
         Result_Value (NewFromJSON E jsonData) = Value jr \<and>
         Result_Key (NewFromJSON E jsonData) = Some k \<and>
         Result_Tag (NewFromJSON E jsonData) = Tag jr \<and>
         ErrorCode (NewFromJSON E jsonData) = Error jr) \<and>
      (\<forall>m. Value jr = AMap m \<and> map_of m ''value'' = None \<longrightarrow>
         reports_error (NewFromJSON E jsonData) \<and>
         ErrorCode (NewFromJSON E jsonData) = - 1 \<and>
         ErrorDesc (NewFromJSON E jsonData) = ''value field not found: '' @ fmt_v E m \<and>
         Result_Value (NewFromJSON E jsonData) = ANil \<and>
         Result_Key (NewFromJSON E jsonData) = None \<and>
         Result_Tag (NewFromJSON E jsonData) = 0))"
proof (intro conjI impI allI)
  assume "json_Unmarshal E envelope_ok =
      Inr \<lparr>Key = 5, Tag = 42, Error = 0, Value = AMap [(''value'', ABool True)]\<rparr> \<and>
    key_FromSubType E 5 = Inr k5"
  then have r: "NewFromJSON E envelope_ok =
      \<lparr>key = Some k5, tag = 42, errorCode = 0, errorDesc = [], value' = ABool True\<rparr>"
    using NewFromJSON_unwrap [of envelope_ok E _ k5 "[(''value'', ABool True)]" "ABool True"]
      sample_inputs_distinct by simp
  show "Succeeded (NewFromJSON E envelope_ok)" by (simp add: r Succeeded_def)
  show "Result_Tag (NewFromJSON E envelope_ok) = 42" by (simp add: r Result_Tag_def)
  show "Result_Value (NewFromJSON E envelope_ok) = ABool True"
    by (simp add: r Result_Value_def)
next
  fix m v
  assume a: "jsonData \<noteq> [] \<and> json_Unmarshal E jsonData = Inr jr \<and>
    key_FromSubType E (Key jr) = Inr k"
    and b: "Value jr = AMap m \<and> map_of m ''value'' = Some v"
  from a b have r: "NewFromJSON E jsonData =
     \<lparr>key = Some k, tag = Tag jr, errorCode = Error jr,
      errorDesc = (if Error jr \<noteq> 0 then ''error '' @ fmt_d (sint (Error jr)) else []),
      value' = v\<rparr>"
    by (simp add: NewFromJSON_unwrap)
  show "Result_Value (NewFromJSON E jsonData) = v" by (simp add: r Result_Value_def)
  show "Result_Key (NewFromJSON E jsonData) = Some k" by (simp add: r Result_Key_def)
  show "Result_Tag (NewFromJSON E jsonData) = Tag jr" by (simp add: r Result_Tag_def)
  show "ErrorCode (NewFromJSON E jsonData) = Error jr" by (simp add: r ErrorCode_def)
next
  assume a: "jsonData \<noteq> [] \<and> json_Unmarshal E jsonData = Inr jr \<and>
    key_FromSubType E (Key jr) = Inr k"
    and b: "\<forall>m. Value jr \<noteq> AMap m"
  from a b have r: "NewFromJSON E jsonData =
     \<lparr>key = Some k, tag = Tag jr, errorCode = Error jr,
      errorDesc = (if Error jr \<noteq> 0 then ''error '' @ fmt_d (sint (Error jr)) else []),
      value' = Value jr\<rparr>"
    by (simp add: NewFromJSON_as_is)
  show "Result_Value (NewFromJSON E jsonData) = Value jr" by (simp add: r Result_Value_def)
  show "Result_Key (NewFromJSON E jsonData) = Some k" by (simp add: r Result_Key_def)
  show "Result_Tag (NewFromJSON E jsonData) = Tag jr" by (simp add: r Result_Tag_def)
  show "ErrorCode (NewFromJSON E jsonData) = Error jr" by (simp add: r ErrorCode_def)
next
  fix m
  assume a: "jsonData \<noteq> [] \<and> json_Unmarshal E jsonData = Inr jr \<and>
    key_FromSubType E (Key jr) = Inr k"
    and b: "Value jr = AMap m \<and> map_of m ''value'' = None"
  from a b have r: "NewFromJSON E jsonData =
     zero_Result\<lparr>errorCode := - 1,
       errorDesc := ''value field not found: '' @ fmt_v E m\<rparr>"
    by (simp add: NewFromJSON_value_missing)
  show "reports_error (NewFromJSON E jsonData)"
    by (simp add: r reports_error_def ErrorCode_def Succeeded_def ErrorDesc_def)
  show "ErrorCode (NewFromJSON E jsonData) = - 1"
    by (simp add: r ErrorCode_def)
  show "ErrorDesc (NewFromJSON E jsonData) = ''value field not found: '' @ fmt_v E m"
    by (simp add: r ErrorDesc_def)
  show "Result_Value (NewFromJSON E jsonData) = ANil"
    by (simp add: r Result_Value_def zero_Result_def)
  show "Result_Key (NewFromJSON E jsonData) = None"
    by (simp add: r Result_Key_def zero_Result_def)
  show "Result_Tag (NewFromJSON E jsonData) = 0"
    by (simp add: r Result_Tag_def zero_Result_def)
qed

theorem NewFromJSON_unwraps_once_witness:
  "json_Unmarshal sample_env envelope_ok =
     Inr \<lparr>Key = 5, Tag = 42, Error = 0, Value = AMap [(''value'', ABool True)]\<rparr> \<and>
   key_FromSubType sample_env 5 = Inr (MkKey 5) \<and>
   Succeeded (NewFromJSON sample_env envelope_ok) \<and>
   Result_Tag (NewFromJSON sample_env envelope_ok) = 42 \<and>
   Result_Value (NewFromJSON sample_env envelope_ok) = ABool True \<and>
   envelope_nested \<noteq> [] \<and>
   json_Unmarshal sample_env envelope_nested =
     Inr \<lparr>Key = 5, Tag = 42, Error = 0,
          Value = AMap [(''value'', AMap [(''value'', ABool True)])]\<rparr> \<and>
   map_of [(''value'', AMap [(''value'', ABool True)])] ''value'' =
     Some (AMap [(''value'', ABool True)]) \<and>
   Result_Value (NewFromJSON sample_env envelope_nested) = AMap [(''value'', ABool True)] \<and>
   envelope_error \<noteq> [] \<and>
   json_Unmarshal sample_env envelope_error =
     Inr \<lparr>Key = 5, Tag = 42, Error = 7, Value = ANil\<rparr> \<and>
   Result_Value (NewFromJSON sample_env envelope_error) = ANil \<and>
   ErrorCode (NewFromJSON sample_env envelope_error) = 7 \<and>
   envelope_other \<noteq> [] \<and>
   json_Unmarshal sample_env envelope_other =
     Inr \<lparr>Key = 5, Tag = 42, Error = 0, Value = AMap [(''other'', ABool True)]\<rparr> \<and>
   map_of [(''other'', ABool True)] ''value'' = None \<and>
   reports_error (NewFromJSON sample_env envelope_other) \<and>
   ErrorCode (NewFromJSON sample_env envelope_other) = - 1 \<and>
   ErrorDesc (NewFromJSON sample_env envelope_other) =
     ''value field not found: map[other:true]'' \<and>
   Result_Key (NewFromJSON sample_env envelope_other) = None \<and>
   Result_Tag (NewFromJSON sample_env envelope_other) = 0"
  using
    NewFromJSON_unwraps_once [where E = sample_env and ?k5.0 = "MkKey 5"
      and jsonData = envelope_nested and k = "MkKey 5"
      and jr = "\<lparr>Key = 5, Tag = 42, Error = 0,
                 Value = AMap [(''value'', AMap [(''value'', ABool True)])]\<rparr>"]
    NewFromJSON_unwraps_once [where E = sample_env and ?k5.0 = "MkKey 5"
      and jsonData = envelope_error and k = "MkKey 5"
      and jr = "\<lparr>Key = 5, Tag = 42, Error = 7, Value = ANil\<rparr>"]
    NewFromJSON_unwraps_once [where E = sample_env and ?k5.0 = "MkKey 5"
      and jsonData = envelope_other and k = "MkKey 5"
      and jr = "\<lparr>Key = 5, Tag = 42, Error = 0, Value = AMap [(''other'', ABool True)]\<rparr>"]
    sample_inputs_distinct
  by (simp add: sample_env_simps sample_Unmarshal_simps sample_FromSubType_def
      sample_fmt_v_def)

text \<open>
  The sentence of C1 that a \<open>Value\<close> which is not an object with a \<open>value\<close> member is
  taken as it is fails on an object without that member: for the envelope
  \<open>{"Key":5,"Tag":42,"Error":0,"Value":{"other":true}}\<close> the Result does not carry the
  object \<open>{"other":true}\<close>; it carries no value and the error code -1.
\<close>

theorem NewFromJSON_object_without_value_counterexample:
  "json_Unmarshal sample_env envelope_other =
     Inr \<lparr>Key = 5, Tag = 42, Error = 0, Value = AMap [(''other'', ABool True)]\<rparr> \<and>
   key_FromSubType sample_env 5 = Inr (MkKey 5) \<and>
   map_of [(''other'', ABool True)] ''value'' = None \<and>
   Result_Value (NewFromJSON sample_env envelope_other) \<noteq> AMap [(''other'', ABool True)] \<and>
   Result_Value (NewFromJSON sample_env envelope_other) = ANil \<and>
   ErrorCode (NewFromJSON sample_env envelope_other) = - 1 \<and>
   \<not> Succeeded (NewFromJSON sample_env envelope_other)"
  using sample_inputs_distinct
  by (simp add: NewFromJSON_def sample_env_simps sample_Unmarshal_simps
      sample_FromSubType_def Result_Value_def ErrorCode_def Succeeded_def zero_Result_def)

subsection \<open>Marshalling and decoding again\<close>

declare digits.simps [simp del]

lemma read_digits_append:
  "read_digits acc (xs @ ys) =
     (case read_digits acc xs of None \<Rightarrow> None | Some a \<Rightarrow> read_digits a ys)"
  by (induction xs arbitrary: acc) auto

lemma digit_char:
  assumes "k < 10"
  shows "is_digit (char_of (48 + k))" and "(of_char (char_of (48 + k)) :: nat) = 48 + k"
proof -
  from assms have "(48 + k) mod 256 = 48 + k" by simp
  then show "(of_char (char_of (48 + k)) :: nat) = 48 + k" by simp
  with assms show "is_digit (char_of (48 + k))" by (simp add: is_digit_def)
qed

lemma read_digit_char:
  "k < 10 \<Longrightarrow> read_digits acc [char_of (48 + k)] = Some (10 * acc + k)"
  by (simp add: digit_char)

lemma read_digits_digits: "read_digits 0 (digits n) = Some n"
proof (induction n rule: digits.induct)
  case (1 n)
  show ?case
  proof (cases "n < 10")
    case True
    then have "digits n = [char_of (48 + n)]" by (subst digits.simps) simp
    with True show ?thesis by (simp only: read_digit_char) simp
  next
    case False
    from 1 [OF False] have ih: "read_digits 0 (digits (n div 10)) = Some (n div 10)" .
    have "n mod 10 < 10" by simp
    then have step: "read_digits (n div 10) [char_of (48 + n mod 10)] =
        Some (10 * (n div 10) + n mod 10)"
      by (rule read_digit_char)
    from False have "digits n = digits (n div 10) @ [char_of (48 + n mod 10)]"
      by (subst digits.simps) simp
    then have "read_digits 0 (digits n) = Some (10 * (n div 10) + n mod 10)"
      by (simp only: read_digits_append ih step option.case)
    then show ?thesis by simp
  qed
qed

lemma digits_not_Nil: "digits n \<noteq> []"
  by (subst digits.simps) simp

lemma ParseUint_digits: "n < 2 ^ b \<Longrightarrow> ParseUint (digits n) b = Some n"
  by (simp add: ParseUint_def digits_not_Nil read_digits_digits del: digits.simps)

lemma hd_digits: "\<exists>c cs. digits n = c # cs \<and> is_digit c"
proof (induction n rule: digits.induct)
  case (1 n)
  show ?case
  proof (cases "n < 10")
    case True
    then have "digits n = [char_of (48 + n)]" by (subst digits.simps) simp
    with True show ?thesis by (simp add: digit_char del: digits.simps)
  next
    case False
    from 1 [OF False] obtain c cs where c: "digits (n div 10) = c # cs" "is_digit c"
      by blast
    from False have "digits n = digits (n div 10) @ [char_of (48 + n mod 10)]"
      by (subst digits.simps) simp
    with c show ?thesis by (simp del: digits.simps)
  qed
qed

lemma ParseUint_uint32: "ParseUint (fmt_d (uint (w :: uint32))) 32 = Some (unat w)"
proof -
  have "fmt_d (uint w) = digits (unat w)" by (simp add: fmt_d_def)
  moreover have "unat w < 2 ^ 32" using unsigned_less [of w] by simp
  ultimately show ?thesis by (simp add: ParseUint_digits del: digits.simps)
qed

lemma ParseUint_uint64: "ParseUint (fmt_d (uint (w :: uint64))) 64 = Some (unat w)"
proof -
  have "fmt_d (uint w) = digits (unat w)" by (simp add: fmt_d_def)
  moreover have "unat w < 2 ^ 64" using unsigned_less [of w] by simp
  ultimately show ?thesis by (simp add: ParseUint_digits del: digits.simps)
qed

lemma ParseInt_int32: "ParseInt (fmt_d (sint (w :: int32))) 32 = Some (sint w)"
proof (cases "sint w < 0")
  case True
  have lo: "- (2 ^ 31) \<le> sint w" using sint_ge [of w] by simp
  let ?n = "nat (- sint w)"
  have n: "?n \<le> 2 ^ 31" using lo True by (simp add: nat_le_iff)
  then have "?n < 2 ^ 32" by simp
  then have "ParseUint (digits ?n) 32 = Some ?n" by (rule ParseUint_digits)
  moreover have "fmt_d (sint w) = CHR ''-'' # digits ?n" using True by (simp add: fmt_d_def)
  ultimately show ?thesis using n True by (simp add: ParseInt_def del: digits.simps)
next
  case False
  have hi: "sint w < 2 ^ 31" using sint_lt [of w] by simp
  let ?n = "nat (sint w)"
  have n: "?n < 2 ^ 31" using hi False by (simp add: nat_less_iff)
  then have "?n < 2 ^ 32" by simp
  then have p: "ParseUint (digits ?n) 32 = Some ?n" by (rule ParseUint_digits)
  obtain c cs where d: "digits ?n = c # cs" "is_digit c" using hd_digits by blast
  then have c: "c \<noteq> CHR ''-''" "c \<noteq> CHR ''+''" by (auto simp add: is_digit_def)
  have "fmt_d (sint w) = digits ?n" using False by (simp add: fmt_d_def)
  then show ?thesis using p d c n False by (simp add: ParseInt_def del: digits.simps)
qed

lemma json_env_simps:
  "json_Unmarshal (json_env T cat fv) data =
     (case text_parse T data of Inl err \<Rightarrow> Inl err | Inr j \<Rightarrow> decode_jsonResult T j)"
  "json_Marshal (json_env T cat fv) x =
     (case encode_jsonResult T x of Inl err \<Rightarrow> Inl err | Inr j \<Rightarrow> Inr (text_render T j))"
  "key_FromSubType (json_env T cat fv) = cat"
  "fmt_v (json_env T cat fv) = fv"
  by (simp_all add: json_env_def)

lemma field_named_exact:
  "field_named T ''Key'' = Some ''Key''" "field_named T ''Tag'' = Some ''Tag''"
  "field_named T ''Error'' = Some ''Error''" "field_named T ''Value'' = Some ''Value''"
  by (simp_all add: field_named_def)

lemma decode_envelope:
  assumes "decode_any T jv = Inr a"
  shows "decode_jsonResult T
           (JObject [(''Key'', JNumber (fmt_d (uint (k :: uint32)))),
                     (''Tag'', JNumber (fmt_d (uint (t :: uint64)))),
                     (''Error'', JNumber (fmt_d (sint (e :: int32)))),
                     (''Value'', JObject [(''value'', jv)])]) =
         Inr \<lparr>Key = k, Tag = t, Error = e, Value = AMap [(''value'', a)]\<rparr>"
  using assms
  by (simp add: decode_jsonResult_def decode_member_def field_named_exact decode_uint_def
      decode_int_def ParseUint_uint32 ParseUint_uint64 ParseInt_int32)

lemma encode_envelope:
  "encode_any T v = Inr jv \<Longrightarrow>
   encode_jsonResult T \<lparr>Key = k, Tag = t, Error = e, Value = AjsonResultValue v\<rparr> =
     Inr (JObject [(''Key'', JNumber (fmt_d (uint k))), (''Tag'', JNumber (fmt_d (uint t))),
                   (''Error'', JNumber (fmt_d (sint e))),
                   (''Value'', JObject [(''value'', jv)])])"
  by (simp add: encode_jsonResult_def)

lemma encode_envelope_error:
  "encode_any T v = Inl err \<Longrightarrow>
   encode_jsonResult T \<lparr>Key = k, Tag = t, Error = e, Value = AjsonResultValue v\<rparr> = Inl err"
  by (simp add: encode_jsonResult_def)

lemma roundtrip_general:
  assumes k: "key r = Some k" "cat (SubType k) = Inr k"
    and enc: "encode_any T (value' r) = Inr jv"
    and dec: "decode_any T jv = Inr a"
    and rd: "\<forall>j. encode_jsonResult T
                  \<lparr>Key = SubType k, Tag = tag r, Error = errorCode r,
                   Value = AjsonResultValue (value' r)\<rparr> = Inr j \<longrightarrow>
                text_parse T (text_render T j) = Inr j \<and> text_render T j \<noteq> []"
  shows "\<exists>data. MarshalJSON (json_env T cat fv) r = Inr (Inr data) \<and>
           MarshalJSON_bytes (json_env T cat fv) r = data \<and>
           NewFromJSON (json_env T cat fv) data =
             \<lparr>key = Some k, tag = tag r, errorCode = errorCode r,
              errorDesc =
                (if errorCode r \<noteq> 0 then ''error '' @ fmt_d (sint (errorCode r)) else []),
              value' = a\<rparr>"
proof -
  let ?E = "json_env T cat fv"
  let ?j = "JObject [(''Key'', JNumber (fmt_d (uint (SubType k)))),
                     (''Tag'', JNumber (fmt_d (uint (tag r)))),
                     (''Error'', JNumber (fmt_d (sint (errorCode r)))),
                     (''Value'', JObject [(''value'', jv)])]"
  let ?data = "text_render T ?j"
  note e = encode_envelope [OF enc, of "SubType k" "tag r" "errorCode r"]
  from rd e have p: "text_parse T ?data = Inr ?j" and ne: "?data \<noteq> []" by auto
  have m: "MarshalJSON ?E r = Inr (Inr ?data)"
    using k(1) e by (simp add: MarshalJSON_def json_env_simps)
  then have b: "MarshalJSON_bytes ?E r = ?data" by (simp add: MarshalJSON_bytes_def)
  have u: "json_Unmarshal ?E ?data =
      Inr \<lparr>Key = SubType k, Tag = tag r, Error = errorCode r, Value = AMap [(''value'', a)]\<rparr>"
    using p decode_envelope [OF dec] by (simp add: json_env_simps)
  have "NewFromJSON ?E ?data =
     \<lparr>key = Some k, tag = tag r, errorCode = errorCode r,
      errorDesc = (if errorCode r \<noteq> 0 then ''error '' @ fmt_d (sint (errorCode r)) else []),
      value' = a\<rparr>"
    using NewFromJSON_unwrap [OF ne u, of k "[(''value'', a)]" a] k(2)
    by (simp add: json_env_simps)
  with m b show ?thesis by blast
qed

lemma stable_leaf:
  "json_stable T v \<Longrightarrow> \<exists>jv. encode_any T v = Inr jv \<and> decode_any T jv = Inr v"
  by (cases v) auto

text \<open>
  C9, as the code has it. Let \<open>r\<close> be a Result with a key \<open>k\<close> of the catalog, and let
  the decoder read back the text that the encoder writes for the envelope of \<open>r\<close>. Then:
  \<^item> \<open>MarshalJSON\<close> wraps the value once: when the value can be encoded, the bytes are the
    text of the object with the members \<open>Key\<close>, \<open>Tag\<close>, \<open>Error\<close> and \<open>Value\<close>, where
    \<open>Value\<close> is an object with the one member \<open>value\<close>;
  \<^item> when the value is nil, a boolean, a string of valid UTF-8 or a finite float64,
    \<open>NewFromJSON\<close> of the bytes of \<open>MarshalJSON\<close> has the key, tag, error code and value of
    \<open>r\<close>;
  \<^item> for any string, the value that comes back is the string with U+FFFD in the place
    of every byte that is not part of well-formed UTF-8;
  \<^item> for a float64 that is NaN or an infinity, \<open>MarshalJSON\<close> returns an error and no
    bytes, and \<open>NewFromJSON\<close> of these gives an error Result without a key.
\<close>

theorem MarshalJSON_NewFromJSON_roundtrip:
  assumes "key r = Some k"
    and "cat (SubType k) = Inr k"
    and "\<forall>j. encode_jsonResult T
               \<lparr>Key = SubType k, Tag = tag r, Error = errorCode r,
                Value = AjsonResultValue (value' r)\<rparr> = Inr j \<longrightarrow>
             text_parse T (text_render T j) = Inr j \<and> text_render T j \<noteq> []"
  shows
    "let E = json_env T cat fv; r' = NewFromJSON E (MarshalJSON_bytes E r) in
       (\<forall>jv. encode_any T (value' r) = Inr jv \<longrightarrow>
          MarshalJSON E r =
            Inr (Inr (text_render T
              (JObject [(''Key'', JNumber (fmt_d (uint (SubType k)))),
                        (''Tag'', JNumber (fmt_d (uint (tag r)))),
                        (''Error'', JNumber (fmt_d (sint (errorCode r)))),
                        (''Value'', JObject [(''value'', jv)])])))) \<and>
       (json_stable T (value' r) \<longrightarrow>
          Result_Key r' = Result_Key r \<and> Result_Tag r' = Result_Tag r \<and>
          ErrorCode r' = ErrorCode r \<and> Result_Value r' = Result_Value r) \<and>
       (\<forall>s. value' r = AString s \<longrightarrow>
          Result_Key r' = Result_Key r \<and> Result_Tag r' = Result_Tag r \<and>
          ErrorCode r' = ErrorCode r \<and> Result_Value r' = AString (coerce_utf8 s)) \<and>
       (\<forall>f. value' r = AFloat64 f \<and> IsNaN_or_IsInf f \<longrightarrow>
          MarshalJSON E r = Inr (Inl (''json: unsupported value: '' @ float_g T f)) \<and>
          MarshalJSON_bytes E r = [] \<and>
          Result_Key r' = None \<and> ErrorCode r' = - 1)"
proof -
  let ?E = "json_env T cat fv"
  let ?r' = "NewFromJSON ?E (MarshalJSON_bytes ?E r)"
  have 1: "MarshalJSON ?E r =
            Inr (Inr (text_render T
              (JObject [(''Key'', JNumber (fmt_d (uint (SubType k)))),
                        (''Tag'', JNumber (fmt_d (uint (tag r)))),
                        (''Error'', JNumber (fmt_d (sint (errorCode r)))),
                        (''Value'', JObject [(''value'', jv)])])))"
    if "encode_any T (value' r) = Inr jv" for jv
    using assms(1) encode_envelope [OF that, of "SubType k" "tag r" "errorCode r"]
    by (simp add: MarshalJSON_def json_env_simps)
  have g: "Result_Key ?r' = Result_Key r \<and> Result_Tag ?r' = Result_Tag r \<and>
           ErrorCode ?r' = ErrorCode r \<and> Result_Value ?r' = a"
    if "encode_any T (value' r) = Inr jv" "decode_any T jv = Inr a" for jv a
  proof -
    from roundtrip_general [of r k cat T jv a fv, OF assms(1) assms(2) that(1) that(2) assms(3)]
    have "?r' = \<lparr>key = Some k, tag = tag r, errorCode = errorCode r,
              errorDesc =
                (if errorCode r \<noteq> 0 then ''error '' @ fmt_d (sint (errorCode r)) else []),
              value' = a\<rparr>"
      by auto
    then show ?thesis
      using assms(1) by (simp add: Result_Key_def Result_Tag_def ErrorCode_def Result_Value_def)
  qed
  have 2: "Result_Key ?r' = Result_Key r \<and> Result_Tag ?r' = Result_Tag r \<and>
           ErrorCode ?r' = ErrorCode r \<and> Result_Value ?r' = Result_Value r"
    if "json_stable T (value' r)"
  proof -
    from stable_leaf [OF that] obtain jv where
      "encode_any T (value' r) = Inr jv" "decode_any T jv = Inr (value' r)" by blast
    from g [OF this] show ?thesis by (simp add: Result_Value_def)
  qed
  have 3: "Result_Key ?r' = Result_Key r \<and> Result_Tag ?r' = Result_Tag r \<and>
           ErrorCode ?r' = ErrorCode r \<and> Result_Value ?r' = AString (coerce_utf8 s)"
    if "value' r = AString s" for s
    using g [of "JString (coerce_utf8 s)" "AString (coerce_utf8 s)"] that by simp
  have 4: "MarshalJSON ?E r = Inr (Inl (''json: unsupported value: '' @ float_g T f)) \<and>
          MarshalJSON_bytes ?E r = [] \<and> Result_Key ?r' = None \<and> ErrorCode ?r' = - 1"
    if "value' r = AFloat64 f \<and> IsNaN_or_IsInf f" for f
  proof -
    from that have "encode_any T (value' r) = Inl (''json: unsupported value: '' @ float_g T f)"
      by simp
    from encode_envelope_error [OF this, of "SubType k" "tag r" "errorCode r"] assms(1)
    have m: "MarshalJSON ?E r = Inr (Inl (''json: unsupported value: '' @ float_g T f))"
      by (simp add: MarshalJSON_def json_env_simps)
    then have b: "MarshalJSON_bytes ?E r = []" by (simp add: MarshalJSON_bytes_def)
    show ?thesis
      using m b
      by (simp add: NewFromJSON_empty Result_Key_def ErrorCode_def zero_Result_def)
  qed
  from 1 2 3 4 show ?thesis unfolding Let_def by blast
qed

lemma sample_fmt_d: "fmt_d 5 = ''5''" "fmt_d 42 = ''42''" "fmt_d 0 = ''0''"
  by code_simp+

lemma sample_coerce: "coerce_utf8 ''hi'' = ''hi''"
  by (simp add: coerce_utf8.simps rune_len_def)

lemma sample_nan: "IsNaN_or_IsInf 0x7FF8000000000000"
  by (simp add: IsNaN_or_IsInf_def)

lemma sample_float_g: "float_g sample_codec 0x7FF8000000000000 = ''NaN''"
  by (simp add: sample_codec_def)


lemma sample_codec_simps:
  "text_render sample_codec (sample_tree (JBool True)) = envelope_ok"
  "text_render sample_codec (sample_tree (JString ''hi'')) = envelope_hi"
  "text_parse sample_codec envelope_ok = Inr (sample_tree (JBool True))"
  "text_parse sample_codec envelope_hi = Inr (sample_tree (JString ''hi''))"
  "envelope_hi \<noteq> []"
  by (simp_all add: sample_codec_def sample_tree_def envelope_ok_def envelope_hi_def)

lemma sample_encode:
  "encode_jsonResult sample_codec
     \<lparr>Key = 5, Tag = 42, Error = 0, Value = AjsonResultValue (ABool True)\<rparr> =
     Inr (sample_tree (JBool True))"
  "encode_jsonResult sample_codec
     \<lparr>Key = 5, Tag = 42, Error = 0, Value = AjsonResultValue (AString ''hi'')\<rparr> =
     Inr (sample_tree (JString ''hi''))"
  "encode_jsonResult sample_codec
     \<lparr>Key = 5, Tag = 42, Error = 0, Value = AjsonResultValue (AFloat64 0x7FF8000000000000)\<rparr> =
     Inl ''json: unsupported value: NaN''"
  by (simp_all add: encode_jsonResult_def sample_tree_def sample_fmt_d sample_coerce
      sample_nan sample_float_g)

theorem MarshalJSON_NewFromJSON_roundtrip_witness:
  "key (New (Some (MkKey 5)) 42 0 [] (ABool True)) = Some (MkKey 5) \<and>
   sample_FromSubType (SubType (MkKey 5)) = Inr (MkKey 5) \<and>
   encode_jsonResult sample_codec
     \<lparr>Key = 5, Tag = 42, Error = 0, Value = AjsonResultValue (ABool True)\<rparr> =
     Inr (sample_tree (JBool True)) \<and>
   text_parse sample_codec (text_render sample_codec (sample_tree (JBool True))) =
     Inr (sample_tree (JBool True)) \<and>
   text_render sample_codec (sample_tree (JBool True)) \<noteq> [] \<and>
   json_stable sample_codec (ABool True) \<and>
   MarshalJSON sample_json_env (New (Some (MkKey 5)) 42 0 [] (ABool True)) =
     Inr (Inr envelope_ok) \<and>
   Result_Key (NewFromJSON sample_json_env
     (MarshalJSON_bytes sample_json_env (New (Some (MkKey 5)) 42 0 [] (ABool True)))) =
     Some (MkKey 5) \<and>
   Result_Tag (NewFromJSON sample_json_env
     (MarshalJSON_bytes sample_json_env (New (Some (MkKey 5)) 42 0 [] (ABool True)))) = 42 \<and>
   ErrorCode (NewFromJSON sample_json_env
     (MarshalJSON_bytes sample_json_env (New (Some (MkKey 5)) 42 0 [] (ABool True)))) = 0 \<and>
   Result_Value (NewFromJSON sample_json_env
     (MarshalJSON_bytes sample_json_env (New (Some (MkKey 5)) 42 0 [] (ABool True)))) =
     ABool True \<and>
   coerce_utf8 ''hi'' = ''hi'' \<and>
   Result_Value (NewFromJSON sample_json_env
     (MarshalJSON_bytes sample_json_env (New (Some (MkKey 5)) 42 0 [] (AString ''hi'')))) =
     AString ''hi'' \<and>
   IsNaN_or_IsInf 0x7FF8000000000000 \<and>
   MarshalJSON sample_json_env (New (Some (MkKey 5)) 42 0 [] (AFloat64 0x7FF8000000000000)) =
     Inr (Inl ''json: unsupported value: NaN'') \<and>
   ErrorCode (NewFromJSON sample_json_env
     (MarshalJSON_bytes sample_json_env
       (New (Some (MkKey 5)) 42 0 [] (AFloat64 0x7FF8000000000000)))) = - 1"
proof -
  let ?rb = "New (Some (MkKey 5)) 42 0 [] (ABool True)"
  let ?rs = "New (Some (MkKey 5)) 42 0 [] (AString ''hi'')"
  let ?rn = "New (Some (MkKey 5)) 42 0 [] (AFloat64 0x7FF8000000000000)"
  have kb: "key ?rb = Some (MkKey 5)" and ks: "key ?rs = Some (MkKey 5)"
    and kn: "key ?rn = Some (MkKey 5)" by (simp_all add: New_def)
  have c: "sample_FromSubType (SubType (MkKey 5)) = Inr (MkKey 5)"
    by (simp add: sample_FromSubType_def)
  have hb: "\<forall>j. encode_jsonResult sample_codec
               \<lparr>Key = SubType (MkKey 5), Tag = tag ?rb, Error = errorCode ?rb,
                Value = AjsonResultValue (value' ?rb)\<rparr> = Inr j \<longrightarrow>
             text_parse sample_codec (text_render sample_codec j) = Inr j \<and>
             text_render sample_codec j \<noteq> []"
    using sample_inputs_distinct by (simp add: New_def sample_encode sample_codec_simps)
  have hs: "\<forall>j. encode_jsonResult sample_codec
               \<lparr>Key = SubType (MkKey 5), Tag = tag ?rs, Error = errorCode ?rs,
                Value = AjsonResultValue (value' ?rs)\<rparr> = Inr j \<longrightarrow>
             text_parse sample_codec (text_render sample_codec j) = Inr j \<and>
             text_render sample_codec j \<noteq> []"
    by (simp add: New_def sample_encode sample_codec_simps)
  have hn: "\<forall>j. encode_jsonResult sample_codec
               \<lparr>Key = SubType (MkKey 5), Tag = tag ?rn, Error = errorCode ?rn,
                Value = AjsonResultValue (value' ?rn)\<rparr> = Inr j \<longrightarrow>
             text_parse sample_codec (text_render sample_codec j) = Inr j \<and>
             text_render sample_codec j \<noteq> []"
    by (simp add: New_def sample_encode)
  note tb = MarshalJSON_NewFromJSON_roundtrip
    [of ?rb "MkKey 5" sample_FromSubType sample_codec sample_fmt_v, OF kb c hb,
     unfolded Let_def, folded sample_json_env_def]
  note ts = MarshalJSON_NewFromJSON_roundtrip
    [of ?rs "MkKey 5" sample_FromSubType sample_codec sample_fmt_v, OF ks c hs,
     unfolded Let_def, folded sample_json_env_def]
  note tn = MarshalJSON_NewFromJSON_roundtrip
    [of ?rn "MkKey 5" sample_FromSubType sample_codec sample_fmt_v, OF kn c hn,
     unfolded Let_def, folded sample_json_env_def]
  have sb: "json_stable sample_codec (value' ?rb)" by (simp add: New_def)
  from tb [THEN conjunct2, THEN conjunct1, rule_format, OF sb]
  have b: "Result_Key (NewFromJSON sample_json_env (MarshalJSON_bytes sample_json_env ?rb)) =
        Some (MkKey 5)"
      "Result_Tag (NewFromJSON sample_json_env (MarshalJSON_bytes sample_json_env ?rb)) = 42"
      "ErrorCode (NewFromJSON sample_json_env (MarshalJSON_bytes sample_json_env ?rb)) = 0"
      "Result_Value (NewFromJSON sample_json_env (MarshalJSON_bytes sample_json_env ?rb)) =
        ABool True"
    by (simp_all add: New_def Result_Key_def Result_Tag_def ErrorCode_def Result_Value_def)
  have eb: "encode_any sample_codec (value' ?rb) = Inr (JBool True)" by (simp add: New_def)
  from tb [THEN conjunct1, rule_format, OF eb]
  have mb: "MarshalJSON sample_json_env ?rb = Inr (Inr envelope_ok)"
    using sample_codec_simps(1)
    by (simp add: New_def sample_fmt_d sample_tree_def)
  have vs: "value' ?rs = AString ''hi''" by (simp add: New_def)
  from ts [THEN conjunct2, THEN conjunct2, THEN conjunct1, rule_format, OF vs]
  have s: "Result_Value (NewFromJSON sample_json_env (MarshalJSON_bytes sample_json_env ?rs)) =
        AString ''hi''"
    by (simp add: sample_coerce)
  have vn: "value' ?rn = AFloat64 0x7FF8000000000000 \<and> IsNaN_or_IsInf 0x7FF8000000000000"
    by (simp add: New_def sample_nan)
  note n4 = tn [THEN conjunct2, THEN conjunct2, THEN conjunct2, rule_format, OF vn]
  have n: "MarshalJSON sample_json_env ?rn = Inr (Inl ''json: unsupported value: NaN'')"
      "ErrorCode (NewFromJSON sample_json_env (MarshalJSON_bytes sample_json_env ?rn)) = - 1"
    using n4 [THEN conjunct1] n4 [THEN conjunct2, THEN conjunct2, THEN conjunct2]
    by (simp_all only: sample_float_g append.simps)
  have p: "text_parse sample_codec (text_render sample_codec (sample_tree (JBool True))) =
        Inr (sample_tree (JBool True))"
      "text_render sample_codec (sample_tree (JBool True)) \<noteq> []"
    using sample_inputs_distinct by (simp_all add: sample_codec_simps)
  have st: "json_stable sample_codec (ABool True)" by simp
  show ?thesis
    by (intro conjI)
      (rule kb c sample_encode(1) p st mb b sample_coerce s sample_nan n)+
qed

text \<open>
  C9 as stated fails on a float64: for a Result with the key 5 and the value NaN,
  \<open>MarshalJSON\<close> returns the error of \<open>json.Marshal\<close> and no bytes, and decoding gives a
  Result with no key, no value and the error code -1.
\<close>

theorem MarshalJSON_NaN_counterexample:
  "\<not> json_stable sample_codec (AFloat64 0x7FF8000000000000) \<and>
   IsNaN_or_IsInf 0x7FF8000000000000 \<and>
   Result_Key (New (Some (MkKey 5)) 42 0 [] (AFloat64 0x7FF8000000000000)) = Some (MkKey 5) \<and>
   key_FromSubType sample_json_env 5 = Inr (MkKey 5) \<and>
   MarshalJSON sample_json_env (New (Some (MkKey 5)) 42 0 [] (AFloat64 0x7FF8000000000000)) =
     Inr (Inl ''json: unsupported value: NaN'') \<and>
   MarshalJSON_bytes sample_json_env
     (New (Some (MkKey 5)) 42 0 [] (AFloat64 0x7FF8000000000000)) = [] \<and>
   Result_Key (NewFromJSON sample_json_env
     (MarshalJSON_bytes sample_json_env
       (New (Some (MkKey 5)) 42 0 [] (AFloat64 0x7FF8000000000000)))) = None \<and>
   Result_Value (NewFromJSON sample_json_env
     (MarshalJSON_bytes sample_json_env
       (New (Some (MkKey 5)) 42 0 [] (AFloat64 0x7FF8000000000000)))) = ANil \<and>
   ErrorCode (NewFromJSON sample_json_env
     (MarshalJSON_bytes sample_json_env
       (New (Some (MkKey 5)) 42 0 [] (AFloat64 0x7FF8000000000000)))) = - 1"
proof -
  let ?rn = "New (Some (MkKey 5)) 42 0 [] (AFloat64 0x7FF8000000000000)"
  let ?r' = "NewFromJSON sample_json_env (MarshalJSON_bytes sample_json_env ?rn)"
  have st: "\<not> json_stable sample_codec (AFloat64 0x7FF8000000000000)"
    by (simp add: sample_nan)
  have k: "Result_Key ?rn = Some (MkKey 5)" by (simp add: Result_Key_def New_def)
  have c: "key_FromSubType sample_json_env 5 = Inr (MkKey 5)"
    by (simp add: sample_json_env_def json_env_simps sample_FromSubType_def)
  have "json_Marshal sample_json_env
      \<lparr>Key = 5, Tag = 42, Error = 0, Value = AjsonResultValue (AFloat64 0x7FF8000000000000)\<rparr> =
      Inl ''json: unsupported value: NaN''"
    by (simp only: sample_json_env_def json_env_simps sample_encode(3) sum.case)
  then have m: "MarshalJSON sample_json_env ?rn = Inr (Inl ''json: unsupported value: NaN'')"
    by (simp add: MarshalJSON_def New_def)
  have b: "MarshalJSON_bytes sample_json_env ?rn = []"
    by (simp only: MarshalJSON_bytes_def m sum.case)
  have r': "?r' = zero_Result\<lparr>errorCode := - 1, errorDesc := ''empty or nil json data''\<rparr>"
    by (simp only: b NewFromJSON_empty)
  have r1: "Result_Key ?r' = None" by (simp only: r') (simp add: Result_Key_def zero_Result_def)
  have r2: "Result_Value ?r' = ANil"
    by (simp only: r') (simp add: Result_Value_def zero_Result_def)
  have r3: "ErrorCode ?r' = - 1" by (simp only: r') (simp add: ErrorCode_def)
  show ?thesis by (intro conjI) (rule st sample_nan k c m b r1 r2 r3)+
qed

subsection \<open>Waiting for a change of the connection status\<close>

lemma after_simps [simp]:
  "after [] cm = cm"
  "after (Callback r # es) cm = after es (connectionStatusChanged r cm)"
  "after (Wakeup # es) cm = after es cm"
  "after (xs @ ys) cm = after ys (after xs cm)"
  by (simp_all add: after_def)

lemma cond_Wait_Some:
  "cond_Wait es cm = Some (cm', es') \<Longrightarrow>
   \<exists>used. es = used @ es' \<and> used \<noteq> [] \<and> last used = Wakeup \<and> cm' = after used cm"
proof (induction es cm rule: cond_Wait.induct)
  case (1 cm)
  then show ?case by simp
next
  case (2 r es cm)
  then obtain used where "es = used @ es'" "used \<noteq> []" "last used = Wakeup"
    "cm' = after used (connectionStatusChanged r cm)" by auto
  then show ?case by (intro exI [of _ "Callback r # used"]) simp
next
  case (3 es cm)
  then show ?case by (intro exI [of _ "[Wakeup]"]) simp
qed

lemma waitLoop_Some:
  "waitLoop current es cm = Some (cm', rest) \<Longrightarrow>
   connected cm' \<noteq> current \<and>
   (\<exists>used. es = used @ rest \<and> cm' = after used cm \<and>
      (if connected cm = current then used \<noteq> [] \<and> last used = Wakeup else used = []))"
proof (induction current es cm rule: waitLoop.induct)
  case (1 current es cm)
  show ?case
  proof (cases "connected cm = current")
    case False
    with "1.prems" have "cm' = cm" "rest = es"
      by (simp_all add: waitLoop.simps [of current es cm])
    with False show ?thesis by (intro conjI exI [of _ "[]"]) auto
  next
    case True
    with "1.prems" obtain cm1 es1 where w: "cond_Wait es cm = Some (cm1, es1)"
      and l: "waitLoop current es1 cm1 = Some (cm', rest)"
      by (auto simp add: waitLoop.simps [of current es cm] split: option.splits)
    from w obtain u1 where u1: "es = u1 @ es1" "u1 \<noteq> []" "last u1 = Wakeup" "cm1 = after u1 cm"
      using cond_Wait_Some by blast
    from "1.IH" [OF True w refl l] obtain u2 where
      u2: "connected cm' \<noteq> current" "es1 = u2 @ rest" "cm' = after u2 cm1"
        "if connected cm1 = current then u2 \<noteq> [] \<and> last u2 = Wakeup else u2 = []"
      by auto
    from u1(3) u2(4) have "last (u1 @ u2) = Wakeup"
      by (cases "u2 = []") (auto split: if_splits)
    with u1 u2 True show ?thesis
      by (intro conjI exI [of _ "u1 @ u2"]) auto
  qed
qed

lemma connectionStatusChanged_cases:
  "connectionStatusChanged r cm = cm \<or>
   (Result_Value r = ABool (\<not> connected cm) \<and>
    connectionStatusChanged r cm =
      cm\<lparr>connected := \<not> connected cm, broadcasts := Suc (broadcasts cm)\<rparr>)"
  by (auto simp add: connectionStatusChanged_def split: any.splits)

lemma broadcasts_after_mono: "broadcasts cm \<le> broadcasts (after used cm)"
proof (induction used arbitrary: cm)
  case Nil
  then show ?case by simp
next
  case (Cons x used)
  show ?case
  proof (cases x)
    case (Callback r)
    have "broadcasts cm \<le> broadcasts (connectionStatusChanged r cm)"
      using connectionStatusChanged_cases [of r cm] by auto
    also have "\<dots> \<le> broadcasts (after used (connectionStatusChanged r cm))"
      by (rule Cons.IH)
    finally show ?thesis using Callback by simp
  next
    case Wakeup
    then show ?thesis using Cons.IH by simp
  qed
qed

lemma after_changed:
  "connected (after used cm) \<noteq> connected cm \<Longrightarrow>
   broadcasts cm < broadcasts (after used cm) \<and>
   (\<exists>pre r post. used = pre @ Callback r # post \<and> Result_Value r = ABool (\<not> connected cm) \<and>
      connected (after pre cm) = connected cm)"
proof (induction used arbitrary: cm)
  case Nil
  then show ?case by simp
next
  case (Cons x used)
  show ?case
  proof (cases x)
    case Wakeup
    with Cons.prems have "connected (after used cm) \<noteq> connected cm" by simp
    from Cons.IH [OF this] obtain pre r post where
      b: "broadcasts cm < broadcasts (after used cm)" and
      u: "used = pre @ Callback r # post" "Result_Value r = ABool (\<not> connected cm)"
        "connected (after pre cm) = connected cm" by blast
    from u have "x # used = (Wakeup # pre) @ Callback r # post \<and>
       Result_Value r = ABool (\<not> connected cm) \<and> connected (after (Wakeup # pre) cm) = connected cm"
      using Wakeup by simp
    then show ?thesis using b Wakeup by (metis after_simps(3))
  next
    case (Callback r)
    consider (same) "connectionStatusChanged r cm = cm"
      | (flip) "Result_Value r = ABool (\<not> connected cm)"
          "connectionStatusChanged r cm =
             cm\<lparr>connected := \<not> connected cm, broadcasts := Suc (broadcasts cm)\<rparr>"
      using connectionStatusChanged_cases by blast
    then show ?thesis
    proof cases
      case same
      with Cons.prems Callback have "connected (after used cm) \<noteq> connected cm" by simp
      from Cons.IH [OF this] obtain pre r' post where
        b: "broadcasts cm < broadcasts (after used cm)" and
        u: "used = pre @ Callback r' # post" "Result_Value r' = ABool (\<not> connected cm)"
          "connected (after pre cm) = connected cm" by blast
      from u same Callback have "x # used = (x # pre) @ Callback r' # post \<and>
         Result_Value r' = ABool (\<not> connected cm) \<and> connected (after (x # pre) cm) = connected cm"
        by simp
      then show ?thesis using b same Callback by (metis after_simps(2))
    next
      case flip
      have "Suc (broadcasts cm) \<le> broadcasts (after used (connectionStatusChanged r cm))"
        using broadcasts_after_mono [of "connectionStatusChanged r cm" used] flip(2) by simp
      then have "broadcasts cm < broadcasts (after (x # used) cm)"
        using Callback by simp
      moreover have "x # used = [] @ Callback r # used \<and>
         Result_Value r = ABool (\<not> connected cm) \<and> connected (after [] cm) = connected cm"
        using Callback flip(1) by simp
      ultimately show ?thesis by blast
    qed
  qed
qed

lemma waitLoop_None:
  "connected cm = current \<Longrightarrow>
   \<forall>r. Callback r \<in> set es \<longrightarrow> Result_Value r \<noteq> ABool (\<not> current) \<Longrightarrow>
   waitLoop current es cm = None"
proof (rule ccontr)
  assume c: "connected cm = current"
    and n: "\<forall>r. Callback r \<in> set es \<longrightarrow> Result_Value r \<noteq> ABool (\<not> current)"
    and "waitLoop current es cm \<noteq> None"
  then obtain cm' rest where "waitLoop current es cm = Some (cm', rest)" by auto
  from waitLoop_Some [OF this] obtain used where
    u: "connected cm' \<noteq> current" "es = used @ rest" "cm' = after used cm" by auto
  with c have "connected (after used cm) \<noteq> connected cm" by simp
  from after_changed [OF this] obtain pre r post where
    "used = pre @ Callback r # post" "Result_Value r = ABool (\<not> connected cm)" by blast
  with u(2) c n show False by auto
qed

lemma connectionStatusChanged_same:
  "Result_Value r \<noteq> ABool (\<not> connected cm) \<Longrightarrow> connectionStatusChanged r cm = cm"
  using connectionStatusChanged_cases [of r cm] by auto

lemma waitLoop_skip:
  "connected cm = current \<Longrightarrow>
   \<forall>q. Callback q \<in> set pre \<longrightarrow> Result_Value q \<noteq> ABool (\<not> current) \<Longrightarrow>
   waitLoop current (pre @ es) cm = waitLoop current es cm"
proof (induction pre)
  case Nil
  then show ?case by simp
next
  case (Cons x pre)
  then have ih: "waitLoop current (pre @ es) cm = waitLoop current es cm" by simp
  show ?case
  proof (cases x)
    case (Callback q)
    with Cons.prems have "connectionStatusChanged q cm = cm"
      by (simp add: connectionStatusChanged_same)
    then have "cond_Wait ((x # pre) @ es) cm = cond_Wait (pre @ es) cm"
      using Callback by simp
    then have "waitLoop current ((x # pre) @ es) cm = waitLoop current (pre @ es) cm"
      using Cons.prems(1)
      by (simp add: waitLoop.simps [of current "x # pre @ es" cm]
          waitLoop.simps [of current "pre @ es" cm])
    with ih show ?thesis by simp
  next
    case Wakeup
    then have "waitLoop current ((x # pre) @ es) cm = waitLoop current (pre @ es) cm"
      using Cons.prems(1) by (simp add: waitLoop.simps [of current "Wakeup # pre @ es" cm])
    with ih show ?thesis by simp
  qed
qed

lemma waitLoop_returns:
  assumes "connected cm = current"
    and "\<forall>q. Callback q \<in> set pre \<longrightarrow> Result_Value q \<noteq> ABool (\<not> current)"
    and "Result_Value r = ABool (\<not> current)"
  shows "waitLoop current (pre @ Callback r # Wakeup # post) cm =
         Some (cm\<lparr>connected := \<not> current, broadcasts := Suc (broadcasts cm)\<rparr>, post)"
proof -
  let ?cm' = "cm\<lparr>connected := \<not> current, broadcasts := Suc (broadcasts cm)\<rparr>"
  have c: "connectionStatusChanged r cm = ?cm'"
    using assms(1,3) by (simp add: connectionStatusChanged_def)
  have "waitLoop current (Callback r # Wakeup # post) cm = waitLoop current post ?cm'"
    using assms(1) c by (simp add: waitLoop.simps [of current "Callback r # Wakeup # post" cm])
  also have "\<dots> = Some (?cm', post)"
    by (simp add: waitLoop.simps [of current post ?cm'])
  finally show ?thesis using waitLoop_skip [OF assms(1,2)] by simp
qed

text \<open>
  C6. A call of \<open>waitForConnectionStatusChange\<close> made while the flag \<open>connected\<close> holds
  a value \<open>v\<close> returns only after a callback of the status listener has changed the flag
  to the other value. If it returns, then on the part of the schedule it has used, which
  ends with the wakeup at which it returns, some callback carried the boolean other than
  \<open>v\<close> at a moment when the flag still was \<open>v\<close>, the flag has been stored and broadcast
  since the call (the count of broadcasts has grown), and the flag now differs from \<open>v\<close>.
  And it never returns before: on a schedule whose callbacks never carry the other
  boolean the call is still blocked at the schedule's end, whatever wakeups, spurious
  ones, the schedule holds, because the loop tests the snapshot again after every one.
  The call does return when the change comes: at the first wakeup after the first
  callback that carries the other boolean, if that wakeup follows the callback at once.
\<close>

theorem waitForConnectionStatusChange_only_after_change:
  "(waitForConnectionStatusChange es cm = Some (cm', rest) \<longrightarrow>
      connected cm' \<noteq> connected cm \<and> broadcasts cm < broadcasts cm' \<and>
      (\<exists>used. es = used @ rest \<and> cm' = after used cm \<and> used \<noteq> [] \<and> last used = Wakeup \<and>
         (\<exists>pre r post. used = pre @ Callback r # post \<and>
            Result_Value r = ABool (\<not> connected cm) \<and>
            connected (after pre cm) = connected cm))) \<and>
   ((\<forall>r. Callback r \<in> set es \<longrightarrow> Result_Value r \<noteq> ABool (\<not> connected cm)) \<longrightarrow>
      waitForConnectionStatusChange es cm = None) \<and>
   (\<forall>pre r post.
      es = pre @ Callback r # Wakeup # post \<and>
      (\<forall>q. Callback q \<in> set pre \<longrightarrow> Result_Value q \<noteq> ABool (\<not> connected cm)) \<and>
      Result_Value r = ABool (\<not> connected cm) \<longrightarrow>
      waitForConnectionStatusChange es cm =
        Some (cm\<lparr>connected := \<not> connected cm, broadcasts := Suc (broadcasts cm)\<rparr>, post))"
proof (intro conjI impI allI)
  assume "waitForConnectionStatusChange es cm = Some (cm', rest)"
  then have "waitLoop (connected cm) es cm = Some (cm', rest)"
    by (simp add: waitForConnectionStatusChange_def)
  from waitLoop_Some [OF this] obtain used where
    u: "connected cm' \<noteq> connected cm" "es = used @ rest" "cm' = after used cm"
      "used \<noteq> []" "last used = Wakeup" by auto
  from u(1,3) have ch: "connected (after used cm) \<noteq> connected cm" by simp
  show "connected cm' \<noteq> connected cm" by (rule u(1))
  show "broadcasts cm < broadcasts cm'"
    using after_changed [OF ch] u(3) by simp
  show "\<exists>used. es = used @ rest \<and> cm' = after used cm \<and> used \<noteq> [] \<and> last used = Wakeup \<and>
         (\<exists>pre r post. used = pre @ Callback r # post \<and>
            Result_Value r = ABool (\<not> connected cm) \<and>
            connected (after pre cm) = connected cm)"
    using after_changed [OF ch] u by blast
next
  assume "\<forall>r. Callback r \<in> set es \<longrightarrow> Result_Value r \<noteq> ABool (\<not> connected cm)"
  then show "waitForConnectionStatusChange es cm = None"
    by (simp add: waitForConnectionStatusChange_def waitLoop_None)
next
  fix pre r post
  assume "es = pre @ Callback r # Wakeup # post \<and>
      (\<forall>q. Callback q \<in> set pre \<longrightarrow> Result_Value q \<noteq> ABool (\<not> connected cm)) \<and>
      Result_Value r = ABool (\<not> connected cm)"
  then show "waitForConnectionStatusChange es cm =
        Some (cm\<lparr>connected := \<not> connected cm, broadcasts := Suc (broadcasts cm)\<rparr>, post)"
    using waitLoop_returns [of cm "connected cm" pre r post]
    by (simp add: waitForConnectionStatusChange_def)
qed

theorem waitForConnectionStatusChange_only_after_change_witness:
  "waitForConnectionStatusChange
     [Wakeup, Callback (status (AString ''x'')), Callback (status (ABool False)), Wakeup,
      Callback (status (ABool True)), Wakeup, Wakeup] sample_Connection =
     Some (sample_Connection\<lparr>connected := True, broadcasts := 1\<rparr>, [Wakeup]) \<and>
   connected (sample_Connection\<lparr>connected := True, broadcasts := 1\<rparr>) \<noteq>
     connected sample_Connection \<and>
   broadcasts sample_Connection <
     broadcasts (sample_Connection\<lparr>connected := True, broadcasts := 1\<rparr>) \<and>
   waitForConnectionStatusChange
     [Wakeup, Wakeup, Callback (status (ABool False)), Callback (status (AString ''x'')),
      Wakeup] sample_Connection = None"
  using
    waitForConnectionStatusChange_only_after_change
      [of "[Wakeup, Callback (status (AString ''x'')), Callback (status (ABool False)),
            Wakeup, Callback (status (ABool True)), Wakeup, Wakeup]"
          sample_Connection "sample_Connection\<lparr>connected := True, broadcasts := 1\<rparr>"
          "[Wakeup]"]
    waitForConnectionStatusChange_only_after_change
      [of "[Wakeup, Wakeup, Callback (status (ABool False)),
            Callback (status (AString ''x'')), Wakeup]"
          sample_Connection sample_Connection "[]"]
  by (simp add: waitForConnectionStatusChange_def waitLoop.simps sample_Connection_def
      connectionStatusChanged_def status_def New_def Result_Value_def)

subsection \<open>Starting the connection\<close>

lemma connected_fold_token:
  "connected (fold connectionStatusChanged early (cm\<lparr>connectionStatusToken := t\<rparr>)) =
   connected (fold connectionStatusChanged early cm)"
proof (induction early arbitrary: cm)
  case Nil
  then show ?case by simp
next
  case (Cons r early)
  have "connectionStatusChanged r (cm\<lparr>connectionStatusToken := t\<rparr>) =
        (connectionStatusChanged r cm)\<lparr>connectionStatusToken := t\<rparr>"
    by (simp add: connectionStatusChanged_def split: any.splits)
  then show ?case using Cons.IH by simp
qed

lemma Start_steps:
  "\<exists>new. steps (Start B early es cm L) = L @ new \<and> new \<noteq> [] \<and>
     (\<forall>k t. CRemoveKeyListener k t \<notin> set new) \<and>
     (CWaitForConnectionStatusChange \<in> set new \<longrightarrow>
        last new = CWaitForConnectionStatusChange \<and>
        (case waitForConnectionStatusChange es
                (fold connectionStatusChanged early
                   (cm\<lparr>connectionStatusToken :=
                      projr (ub_AddKeyListener B L (keyAirLinkConnection B) False)\<rparr>)) of
           None \<Rightarrow> result (Start B early es cm L) = Blocked
         | Some x \<Rightarrow> result (Start B early es cm L) = Returned None)) \<and>
     (CWaitForConnectionStatusChange \<notin> set new \<longrightarrow>
        last new \<noteq> CWaitForConnectionStatusChange \<and>
        (\<exists>e. result (Start B early es cm L) = Returned (Some e)))"
  by (auto simp add: Start_def Let_def split: sum.splits option.splits)

lemma Start_sample_simps:
  "ub_AddKeyListener (bridge_failing_at n) L k i = Inr 1"
  "ub_SendEvent (bridge_failing_at n) L e =
     (if (n = AtClose \<and> subType e = 1) \<or> (n = AtOpen \<and> subType e = 0)
      then Some ''send failed'' else None)"
  "ub_SendEventWithString (bridge_failing_at n) L e x =
     (if n = AtSetIP then Some ''send failed'' else None)"
  "ub_SendEventWithUint64 (bridge_failing_at n) L e v =
     (if n = AtSetPort then Some ''send failed'' else None)"
  "f_Find (bridge_failing_at n) L t =
     (if n = AtFind then Inl ''no robot found'' else Inr sample_Beacon)"
  "keyAirLinkConnection (bridge_failing_at n) = MkKey 117440513"
  "IP_String (bridge_failing_at n) ip = ''192.168.2.1''"
  by (simp_all add: bridge_failing_at_def)

lemma sample_bridge_simps:
  "ub_AddKeyListener sample_bridge L k i = Inr 1"
  "ub_SendEvent sample_bridge L e = None"
  "ub_SendEventWithString sample_bridge L e x = None"
  "ub_SendEventWithUint64 sample_bridge L e v = None"
  "f_Find sample_bridge L t = Inr sample_Beacon"
  "keyAirLinkConnection sample_bridge = MkKey 117440513"
  "IP_String sample_bridge ip = ''192.168.2.1''"
  by (simp_all add: sample_bridge_def Start_sample_simps)

lemma Start_sample_runs:
  "Start (bridge_failing_at AtClose) [] [] sample_Connection [] =
     \<lparr>result = Returned (Some ''send failed''),
      conn = sample_Connection\<lparr>connectionStatusToken := 1\<rparr>, steps = take 4 sample_steps\<rparr>"
  "Start (bridge_failing_at AtSetIP) [] [] sample_Connection [] =
     \<lparr>result = Returned (Some ''send failed''),
      conn = sample_Connection\<lparr>connectionStatusToken := 1\<rparr>, steps = take 5 sample_steps\<rparr>"
  "Start (bridge_failing_at AtSetPort) [] [] sample_Connection [] =
     \<lparr>result = Returned (Some ''send failed''),
      conn = sample_Connection\<lparr>connectionStatusToken := 1\<rparr>, steps = take 6 sample_steps\<rparr>"
  "Start (bridge_failing_at AtOpen) [] [] sample_Connection [] =
     \<lparr>result = Returned (Some ''send failed''),
      conn = sample_Connection\<lparr>connectionStatusToken := 1\<rparr>, steps = sample_steps\<rparr>"
  "Start sample_bridge [] [Callback (status (ABool True)), Wakeup] sample_Connection [] =
     \<lparr>result = Returned None,
      conn = \<lparr>connectionStatusToken = 1, connected = True, broadcasts = 1\<rparr>,
      steps = sample_steps @ [CWaitForConnectionStatusChange]\<rparr>"
  "Start sample_bridge [] [Wakeup, Callback (status (ABool False)), Wakeup]
     sample_Connection [] =
     \<lparr>result = Blocked, conn = sample_Connection\<lparr>connectionStatusToken := 1\<rparr>,
      steps = sample_steps @ [CWaitForConnectionStatusChange]\<rparr>"
  "Start (bridge_failing_at AtFind) [] [] sample_Connection [] =
     \<lparr>result = Returned (Some ''no robot found''),
      conn = sample_Connection\<lparr>connectionStatusToken := 1\<rparr>, steps = take 2 sample_steps\<rparr>"
  by (simp_all add: Start_def Start_sample_simps sample_bridge_simps sample_Beacon_def
      sample_Connection_def sample_steps_def status_def New_def Result_Value_def
      connectionStatusChanged_def waitForConnectionStatusChange_def waitLoop.simps
      NewFromType_def ResetSubType_def subTypeConnectionOpen_def subTypeConnectionClose_def
      subTypeConnectionSetIP_def subTypeConnectionSetPort_def)

text \<open>
  C5. When the listener is registered and discovery has given a beacon, \<open>Start\<close> sends
  the ACK and then issues the bridge events close, set-IP (with the beacon's address),
  set-port (with 10607) and open, in this order and nothing between them. Each event is
  issued only when the one before it returned no error; when one returns an error,
  \<open>Start\<close> returns that error and takes no further step. \<open>Start\<close> enters the wait for the
  connection status only after the open event has returned no error, and then it
  either returns nil or stays blocked.
\<close>

theorem Start_event_sequence:
  assumes "ub_AddKeyListener B L (keyAirLinkConnection B) False = Inr token"
    and "f_Find B (L @ [CAddKeyListener (keyAirLinkConnection B) False]) 30 = Inr b"
  shows
    "let L3 = L @ [CAddKeyListener (keyAirLinkConnection B) False, CFind 30,
                   CSendACK (sourceIp b) (appId b)];
         e_close = \<lparr>etype = TypeConnection, subType = 1\<rparr>;
         e_set_ip = \<lparr>etype = TypeConnection, subType = 2\<rparr>;
         e_set_port = \<lparr>etype = TypeConnection, subType = 3\<rparr>;
         e_open = \<lparr>etype = TypeConnection, subType = 0\<rparr>;
         c1 = CSendEvent e_close;
         c2 = CSendEventWithString e_set_ip (IP_String B (sourceIp b));
         c3 = CSendEventWithUint64 e_set_port 10607;
         c4 = CSendEvent e_open;
         err1 = ub_SendEvent B L3 e_close;
         err2 = ub_SendEventWithString B (L3 @ [c1]) e_set_ip (IP_String B (sourceIp b));
         err3 = ub_SendEventWithUint64 B (L3 @ [c1, c2]) e_set_port 10607;
         err4 = ub_SendEvent B (L3 @ [c1, c2, c3]) e_open;
         R = Start B early es cm L
     in (err1 \<noteq> None \<longrightarrow> steps R = L3 @ [c1] \<and> result R = Returned err1) \<and>
        (err1 = None \<and> err2 \<noteq> None \<longrightarrow>
           steps R = L3 @ [c1, c2] \<and> result R = Returned err2) \<and>
        (err1 = None \<and> err2 = None \<and> err3 \<noteq> None \<longrightarrow>
           steps R = L3 @ [c1, c2, c3] \<and> result R = Returned err3) \<and>
        (err1 = None \<and> err2 = None \<and> err3 = None \<and> err4 \<noteq> None \<longrightarrow>
           steps R = L3 @ [c1, c2, c3, c4] \<and> result R = Returned err4) \<and>
        (err1 = None \<and> err2 = None \<and> err3 = None \<and> err4 = None \<longrightarrow>
           steps R = L3 @ [c1, c2, c3, c4, CWaitForConnectionStatusChange] \<and>
           (result R = Returned None \<or> result R = Blocked))"
  using assms
  by (simp add: Start_def Let_def NewFromType_def ResetSubType_def
      subTypeConnectionOpen_def subTypeConnectionClose_def subTypeConnectionSetIP_def
      subTypeConnectionSetPort_def split: option.splits)

theorem Start_event_sequence_witness:
  "ub_AddKeyListener sample_bridge [] (keyAirLinkConnection sample_bridge) False = Inr 1 \<and>
   f_Find sample_bridge [CAddKeyListener (keyAirLinkConnection sample_bridge) False] 30 =
     Inr sample_Beacon \<and>
   steps (Start sample_bridge [] [Callback (status (ABool True)), Wakeup]
     sample_Connection []) = sample_steps @ [CWaitForConnectionStatusChange] \<and>
   result (Start sample_bridge [] [Callback (status (ABool True)), Wakeup]
     sample_Connection []) = Returned None \<and>
   steps (Start (bridge_failing_at AtClose) [] [] sample_Connection []) = take 4 sample_steps \<and>
   result (Start (bridge_failing_at AtClose) [] [] sample_Connection []) =
     Returned (Some ''send failed'') \<and>
   steps (Start (bridge_failing_at AtSetIP) [] [] sample_Connection []) = take 5 sample_steps \<and>
   result (Start (bridge_failing_at AtSetIP) [] [] sample_Connection []) =
     Returned (Some ''send failed'') \<and>
   steps (Start (bridge_failing_at AtSetPort) [] [] sample_Connection []) = take 6 sample_steps \<and>
   result (Start (bridge_failing_at AtSetPort) [] [] sample_Connection []) =
     Returned (Some ''send failed'') \<and>
   steps (Start (bridge_failing_at AtOpen) [] [] sample_Connection []) = sample_steps \<and>
   result (Start (bridge_failing_at AtOpen) [] [] sample_Connection []) =
     Returned (Some ''send failed'')"
  using
    Start_event_sequence [of sample_bridge "[]" 1 sample_Beacon "[]"
      "[Callback (status (ABool True)), Wakeup]" sample_Connection]
    Start_event_sequence [of "bridge_failing_at AtClose" "[]" 1 sample_Beacon "[]" "[]"
      sample_Connection]
    Start_event_sequence [of "bridge_failing_at AtSetIP" "[]" 1 sample_Beacon "[]" "[]"
      sample_Connection]
    Start_event_sequence [of "bridge_failing_at AtSetPort" "[]" 1 sample_Beacon "[]" "[]"
      sample_Connection]
    Start_event_sequence [of "bridge_failing_at AtOpen" "[]" 1 sample_Beacon "[]" "[]"
      sample_Connection]
  by (simp add: Start_sample_runs sample_bridge_simps Start_sample_simps Let_def
      sample_Beacon_def sample_steps_def)

text \<open>
  C7, as the code has it. The wait for the connection status has no deadline, and
  \<open>Start\<close> removes no listener. Whatever the bridge answers, none of the steps of \<open>Start\<close>
  is a removal of a key listener. Once \<open>Start\<close> has entered the wait, it does not return
  for as long as no callback carries the boolean other than the flag's value at that
  moment: at the end of every such schedule, however long, it is blocked. And when
  \<open>Start\<close> returns an error, it has not entered the wait: the error is one of listener
  registration, discovery or a bridge event.
\<close>

theorem Start_status_wait_unbounded:
  "(\<exists>new. steps (Start B early es cm L) = L @ new \<and>
      (\<forall>k t. CRemoveKeyListener k t \<notin> set new)) \<and>
   (last (steps (Start B early es cm L)) = CWaitForConnectionStatusChange \<and>
    (\<forall>r. Callback r \<in> set es \<longrightarrow>
       Result_Value r \<noteq> ABool (\<not> connected (fold connectionStatusChanged early cm))) \<longrightarrow>
      result (Start B early es cm L) = Blocked) \<and>
   (\<forall>e. result (Start B early es cm L) = Returned (Some e) \<longrightarrow>
      last (steps (Start B early es cm L)) \<noteq> CWaitForConnectionStatusChange)"
proof -
  let ?R = "Start B early es cm L"
  let ?t = "projr (ub_AddKeyListener B L (keyAirLinkConnection B) False)"
  let ?cm2 = "fold connectionStatusChanged early (cm\<lparr>connectionStatusToken := ?t\<rparr>)"
  from Start_steps [of B early es cm L] obtain new where
    n: "steps ?R = L @ new" "new \<noteq> []" "\<forall>k t. CRemoveKeyListener k t \<notin> set new"
      "CWaitForConnectionStatusChange \<in> set new \<longrightarrow>
        last new = CWaitForConnectionStatusChange \<and>
        (case waitForConnectionStatusChange es ?cm2 of
           None \<Rightarrow> result ?R = Blocked | Some x \<Rightarrow> result ?R = Returned None)"
      "CWaitForConnectionStatusChange \<notin> set new \<longrightarrow>
        last new \<noteq> CWaitForConnectionStatusChange \<and> (\<exists>e. result ?R = Returned (Some e))"
    by blast
  from n(1,2) have l: "last (steps ?R) = last new" by simp
  have 1: "\<exists>new. steps ?R = L @ new \<and> (\<forall>k t. CRemoveKeyListener k t \<notin> set new)"
    using n(1,3) by blast
  have 2: "result ?R = Blocked"
    if w: "last (steps ?R) = CWaitForConnectionStatusChange"
      and q: "\<forall>r. Callback r \<in> set es \<longrightarrow>
        Result_Value r \<noteq> ABool (\<not> connected (fold connectionStatusChanged early cm))"
  proof -
    from w l n(5) have "CWaitForConnectionStatusChange \<in> set new" by auto
    with n(4) have c: "case waitForConnectionStatusChange es ?cm2 of
           None \<Rightarrow> result ?R = Blocked | Some x \<Rightarrow> result ?R = Returned None" by simp
    from q have "\<forall>r. Callback r \<in> set es \<longrightarrow> Result_Value r \<noteq> ABool (\<not> connected ?cm2)"
      by (simp add: connected_fold_token)
    then have "waitForConnectionStatusChange es ?cm2 = None"
      by (simp add: waitForConnectionStatusChange_def waitLoop_None)
    with c show ?thesis by simp
  qed
  have 3: "last (steps ?R) \<noteq> CWaitForConnectionStatusChange"
    if "result ?R = Returned (Some e)" for e
  proof
    assume "last (steps ?R) = CWaitForConnectionStatusChange"
    with l n(5) have "CWaitForConnectionStatusChange \<in> set new" by auto
    with n(4) that show False by (auto split: option.splits)
  qed
  from 1 2 3 show ?thesis by blast
qed

theorem Start_status_wait_unbounded_witness:
  "last (steps (Start sample_bridge [] [Wakeup, Callback (status (ABool False)), Wakeup]
     sample_Connection [])) = CWaitForConnectionStatusChange \<and>
   result (Start sample_bridge [] [Wakeup, Callback (status (ABool False)), Wakeup]
     sample_Connection []) = Blocked \<and>
   result (Start (bridge_failing_at AtFind) [] [] sample_Connection []) =
     Returned (Some ''no robot found'') \<and>
   last (steps (Start (bridge_failing_at AtFind) [] [] sample_Connection [])) \<noteq>
     CWaitForConnectionStatusChange"
  using
    Start_status_wait_unbounded [of sample_bridge "[]"
      "[Wakeup, Callback (status (ABool False)), Wakeup]" sample_Connection "[]"]
    Start_status_wait_unbounded [of "bridge_failing_at AtFind" "[]" "[]" sample_Connection "[]"]
  by (simp add: Start_sample_runs sample_steps_def)

text \<open>
  C7 as stated fails: on a bridge where every call succeeds and a schedule on which
  the status never changes (two spurious wakeups and a callback that repeats the
  current status), \<open>Start\<close> returns no error; it does not return, and its steps end with
  the entry into the wait, with no removal of the listener among them.
\<close>

theorem Start_never_returns_counterexample:
  "result (Start sample_bridge [] [Wakeup, Callback (status (ABool False)), Wakeup]
     sample_Connection []) = Blocked \<and>
   steps (Start sample_bridge [] [Wakeup, Callback (status (ABool False)), Wakeup]
     sample_Connection []) =
     [CAddKeyListener (MkKey 117440513) False, CFind 30,
      CSendACK [CHR 0xC0, CHR 0xA8, CHR 0x02, CHR 0x01] 7,
      CSendEvent \<lparr>etype = TypeConnection, subType = 1\<rparr>,
      CSendEventWithString \<lparr>etype = TypeConnection, subType = 2\<rparr> ''192.168.2.1'',
      CSendEventWithUint64 \<lparr>etype = TypeConnection, subType = 3\<rparr> 10607,
      CSendEvent \<lparr>etype = TypeConnection, subType = 0\<rparr>,
      CWaitForConnectionStatusChange]"
  by (simp add: Start_sample_runs sample_steps_def)

subsection \<open>Video callbacks of the camera\<close>

text \<open>
  C10. \<open>AddVideoCallback\<close> with a nil callback returns the zero token and an error and
  leaves the camera as it was: the callback table, the token generator and the steps
  taken on the bridge (so no start-video event) are unchanged.
\<close>

theorem AddVideoCallback_nil:
  "AddVideoCallback B None c = ((0, Some ''callback must not be nil''), c) \<and>
   fst (fst (AddVideoCallback B None c)) = 0 \<and>
   snd (fst (AddVideoCallback B None c)) \<noteq> None \<and>
   callbacks (snd (AddVideoCallback B None c)) = callbacks c \<and>
   tg (snd (AddVideoCallback B None c)) = tg c \<and>
   ub (snd (AddVideoCallback B None c)) = ub c"
  by (simp add: AddVideoCallback_def)

lemma map_len_alt: "map_len m = card (fmdom' m)"
  by (simp add: map_len_def fmdom'_alt_def fcard.rep_eq)

lemma map_len_fmupd_new:
  "t \<notin> fmdom' m \<Longrightarrow> map_len (fmupd t f m) = Suc (map_len m)"
  by (simp add: map_len_alt)

lemma map_len_0_iff: "map_len m = 0 \<longleftrightarrow> fmdom' m = {}"
  by (simp add: map_len_alt)

lemma AddVideoCallback_Some:
  assumes inv: "\<forall>t \<in> fmdom' (callbacks c). t \<le> tg c"
  shows "tg (snd (AddVideoCallback B (Some f) c)) = Suc (tg c) \<and>
         callbacks (snd (AddVideoCallback B (Some f) c)) = fmupd (Suc (tg c)) f (callbacks c) \<and>
         ub (snd (AddVideoCallback B (Some f) c)) =
           ub c @ (if fmdom' (callbacks c) = {} then [CSendEvent (NewFromType TypeStartVideo)] else []) \<and>
         (snd (fst (AddVideoCallback B (Some f) c)) = None \<longrightarrow>
            fst (fst (AddVideoCallback B (Some f) c)) = Suc (tg c))"
proof -
  from inv have new: "Suc (tg c) \<notin> fmdom' (callbacks c)" by auto
  then have len: "map_len (fmupd (Suc (tg c)) f (callbacks c)) = Suc (map_len (callbacks c))"
    by (rule map_len_fmupd_new)
  show ?thesis
    by (simp add: AddVideoCallback_def Next_def Let_def len map_len_0_iff)
qed

lemma add_all_append:
  "add_all B (xs @ ys) c =
     (let (r1, c1) = add_all B xs c; (r2, c2) = add_all B ys c1 in (r1 @ r2, c2))"
  by (induction xs arbitrary: c) (auto simp add: Let_def split: prod.splits)

lemma add_all_ok:
  assumes "\<forall>t \<in> fmdom' (callbacks c). t \<le> tg c"
    and "add_all B vcs c = (rets, c')"
    and "\<forall>x \<in> set rets. snd x = None"
  shows "length rets = length vcs \<and>
         distinct (map fst rets) \<and>
         (\<forall>t \<in> set (map fst rets). tg c < t) \<and>
         (\<forall>t \<in> fmdom' (callbacks c'). t \<le> tg c') \<and>
         tg c \<le> tg c' \<and>
         fmdom' (callbacks c') = fmdom' (callbacks c) \<union> set (map fst rets) \<and>
         ub c' = ub c @ (if vcs \<noteq> [] \<and> fmdom' (callbacks c) = {}
                         then [CSendEvent (NewFromType TypeStartVideo)] else [])"
  using assms
proof (induction vcs arbitrary: c rets c')
  case Nil
  then show ?case by simp
next
  case (Cons vc vcs)
  obtain r c1 where a: "AddVideoCallback B vc c = (r, c1)" by fastforce
  obtain rs c2 where b: "add_all B vcs c1 = (rs, c2)" by fastforce
  from Cons.prems(2) a b have eq: "rets = r # rs" "c' = c2" by auto
  from Cons.prems(3) eq have ok: "snd r = None" "\<forall>x \<in> set rs. snd x = None" by auto
  from a ok(1) obtain f where vc: "vc = Some f"
    by (cases vc) (auto simp add: AddVideoCallback_def)
  from AddVideoCallback_Some [OF Cons.prems(1), of B f] a vc ok(1)
  have s: "tg c1 = Suc (tg c)" "callbacks c1 = fmupd (Suc (tg c)) f (callbacks c)"
    "ub c1 = ub c @ (if fmdom' (callbacks c) = {} then [CSendEvent (NewFromType TypeStartVideo)] else [])"
    "fst r = Suc (tg c)" by auto
  from s Cons.prems(1) have inv1: "\<forall>t \<in> fmdom' (callbacks c1). t \<le> tg c1" by auto
  note ih = Cons.IH [OF inv1 b ok(2)]
  have ne: "fmdom' (callbacks c1) \<noteq> {}" using s(2) by simp
  have 1: "length rets = length (vc # vcs)" using eq ih by simp
  have 2: "distinct (map fst rets)" using eq ih s(1,4) by auto
  have 3: "\<forall>t \<in> set (map fst rets). tg c < t" using eq ih s(1,4) by auto
  have 4: "\<forall>t \<in> fmdom' (callbacks c'). t \<le> tg c'" using eq ih by simp
  have 5: "tg c \<le> tg c'" using eq ih s(1) by simp
  have 6: "fmdom' (callbacks c') = fmdom' (callbacks c) \<union> set (map fst rets)"
    using eq ih s(2,4) by auto
  have 7: "ub c' = ub c @ (if (vc # vcs) \<noteq> [] \<and> fmdom' (callbacks c) = {}
                         then [CSendEvent (NewFromType TypeStartVideo)] else [])"
    using eq ih s(3) ne by simp
  from 1 2 3 4 5 6 7 show ?case by blast
qed

lemma RemoveVideoCallback_found:
  assumes "t \<in> fmdom' (callbacks c)"
  shows "callbacks (snd (RemoveVideoCallback B t c)) = fmdrop t (callbacks c) \<and>
         tg (snd (RemoveVideoCallback B t c)) = tg c \<and>
         ub (snd (RemoveVideoCallback B t c)) =
           ub c @ (if fmdom' (callbacks c) = {t} then [CSendEvent (NewFromType TypeStopVideo)] else [])"
proof -
  from assms obtain f where f: "fmlookup (callbacks c) t = Some f"
    by (auto simp add: fmlookup_dom'_iff)
  have "fmdom' (callbacks c) - {t} = {} \<longleftrightarrow> fmdom' (callbacks c) = {t}"
    using assms by auto
  then show ?thesis
    using f by (simp add: RemoveVideoCallback_def Let_def map_len_0_iff)
qed

lemma remove_all_ok:
  assumes "distinct rs" and "set rs \<subseteq> fmdom' (callbacks c)"
  shows "ub (snd (remove_all B rs c)) =
           ub c @ (if rs \<noteq> [] \<and> set rs = fmdom' (callbacks c)
                   then [CSendEvent (NewFromType TypeStopVideo)] else []) \<and>
         fmdom' (callbacks (snd (remove_all B rs c))) = fmdom' (callbacks c) - set rs"
  using assms
proof (induction rs arbitrary: c)
  case Nil
  then show ?case by simp
next
  case (Cons t rs)
  let ?c1 = "snd (RemoveVideoCallback B t c)"
  from Cons.prems have t: "t \<in> fmdom' (callbacks c)" "t \<notin> set rs" "distinct rs" by auto
  note r = RemoveVideoCallback_found [OF t(1), of B]
  from r Cons.prems t have sub: "set rs \<subseteq> fmdom' (callbacks ?c1)" by auto
  note ih = Cons.IH [OF t(3) sub]
  have s: "snd (remove_all B (t # rs) c) = snd (remove_all B rs ?c1)"
    by (simp add: Let_def split: prod.splits)
  have d: "fmdom' (callbacks ?c1) = fmdom' (callbacks c) - {t}" using r by simp
  show ?case
  proof (cases "fmdom' (callbacks c) = {t}")
    case True
    with Cons.prems t have e: "rs = []" by (cases rs) auto
    then have e': "snd (remove_all B rs ?c1) = ?c1" by simp
    have "ub ?c1 = ub c @ [CSendEvent (NewFromType TypeStopVideo)]"
      and "fmdom' (callbacks ?c1) = {}" using True r d by simp_all
    then show ?thesis unfolding s e' using True e by simp
  next
    case False
    have k: "(rs \<noteq> [] \<and> set rs = fmdom' (callbacks ?c1)) =
             (set (t # rs) = fmdom' (callbacks c))"
    proof -
      have "set rs = fmdom' (callbacks c) - {t} \<longleftrightarrow> insert t (set rs) = fmdom' (callbacks c)"
        using t(1,2) by blast
      moreover have "rs \<noteq> []" if "insert t (set rs) = fmdom' (callbacks c)"
        using that False by auto
      ultimately show ?thesis unfolding d by auto
    qed
    have u1: "ub ?c1 = ub c" using r False by simp
    have "ub (snd (remove_all B rs ?c1)) =
            ub c @ (if set (t # rs) = fmdom' (callbacks c)
                    then [CSendEvent (NewFromType TypeStopVideo)] else [])"
      using ih [THEN conjunct1] unfolding k u1 .
    moreover have "fmdom' (callbacks (snd (remove_all B rs ?c1))) =
            fmdom' (callbacks c) - set (t # rs)"
      using ih [THEN conjunct2] unfolding d by auto
    ultimately show ?thesis unfolding s by simp
  qed
qed


text \<open>
  C8. Take a camera with no video callback, a new one for instance, \<open>N \<ge> 1\<close> calls of
  \<open>AddVideoCallback\<close> with callbacks that are not nil, all of which succeed, and then
  \<open>N\<close> calls of \<open>RemoveVideoCallback\<close> with the tokens returned, in any order. The start-video event is sent once, by the first
  add: after the first \<open>k\<close> adds, for every \<open>k\<close> from 1 to \<open>N\<close>, the bridge has seen this one
  event and no other. No remove but the last sends anything: after the first \<open>k < N\<close>
  removes the bridge still has seen the start-video event only. The last remove, which
  empties the table, sends the stop-video event, so that in the end the bridge has seen
  start-video and stop-video, once each.
\<close>

theorem video_started_once_stopped_once:
  assumes "fs \<noteq> []"
    and "callbacks c0 = fmempty"
    and "add_all B (map Some fs) c0 = (rets, c1)"
    and "\<forall>x \<in> set rets. snd x = None"
    and "mset rs = mset (map fst rets)"
  shows "length rets = length fs \<and> length rs = length fs \<and>
         map_len (callbacks c1) = length fs \<and>
         (\<forall>k. 0 < k \<and> k \<le> length fs \<longrightarrow>
            ub (snd (add_all B (map Some (take k fs)) c0)) =
              ub c0 @ [CSendEvent (NewFromType TypeStartVideo)]) \<and>
         (\<forall>k. k < length rs \<longrightarrow>
            ub (snd (remove_all B (take k rs) c1)) =
              ub c0 @ [CSendEvent (NewFromType TypeStartVideo)]) \<and>
         ub (snd (remove_all B rs c1)) =
           ub c0 @ [CSendEvent (NewFromType TypeStartVideo),
                CSendEvent (NewFromType TypeStopVideo)] \<and>
         map_len (callbacks (snd (remove_all B rs c1))) = 0"
proof -
  let ?start = "CSendEvent (NewFromType TypeStartVideo)"
  let ?stop = "CSendEvent (NewFromType TypeStopVideo)"
  have e0: "fmdom' (callbacks c0) = {}" using assms(2) by simp
  have inv: "\<forall>t \<in> fmdom' (callbacks c0). t \<le> tg c0"
    by (simp add: e0)
  note full = add_all_ok [OF inv assms(3) assms(4)]
  from full have len: "length rets = length fs" by simp
  from full have dist: "distinct (map fst rets)" by simp
  from full have dom1: "fmdom' (callbacks c1) = set (map fst rets)"
    by (simp add: e0)
  from full assms(1) have ub1: "ub c1 = ub c0 @ [?start]"
    by (simp add: e0)
  have lrs: "length rs = length fs"
    using len mset_eq_length [OF assms(5)] by simp
  from assms(5) dist have drs: "distinct rs" by (metis mset_eq_imp_distinct_iff)
  from assms(5) dom1 have srs: "set rs = fmdom' (callbacks c1)" using mset_eq_setD by blast
  have card1: "map_len (callbacks c1) = length fs"
  proof -
    have "card (set (map fst rets)) = length (map fst rets)"
      using dist by (rule distinct_card)
    then show ?thesis using dom1 len by (simp add: map_len_alt)
  qed
  have adds: "ub (snd (add_all B (map Some (take k fs)) c0)) = ub c0 @ [?start]"
    if k: "0 < k \<and> k \<le> length fs" for k
  proof -
    obtain r1 ck where p: "add_all B (map Some (take k fs)) c0 = (r1, ck)"
      by fastforce
    obtain r2 c2 where q: "add_all B (map Some (drop k fs)) ck = (r2, c2)" by fastforce
    have "map Some fs = map Some (take k fs) @ map Some (drop k fs)"
      by (simp add: map_append [symmetric] del: map_append)
    then have "add_all B (map Some fs) c0 = (r1 @ r2, c2)"
      using p q by (simp add: add_all_append)
    with assms(3) have "rets = r1 @ r2" by simp
    with assms(4) have ok: "\<forall>x \<in> set r1. snd x = None" by simp
    from k assms(1) have "map Some (take k fs) \<noteq> []" by auto
    with add_all_ok [OF inv p ok] show ?thesis
      by (simp add: p e0)
  qed
  have rems: "ub (snd (remove_all B (take k rs) c1)) = ub c0 @ [?start]" if k: "k < length rs" for k
  proof -
    have d: "distinct (take k rs)" using drs by simp
    have sub: "set (take k rs) \<subseteq> fmdom' (callbacks c1)"
      using srs by (auto dest: in_set_takeD)
    have "card (set (take k rs)) = k" using d k by (simp add: distinct_card)
    moreover have "card (fmdom' (callbacks c1)) = length rs"
      using distinct_card [OF drs] srs by simp
    ultimately have "set (take k rs) \<noteq> fmdom' (callbacks c1)" using k by auto
    with remove_all_ok [OF d sub, of B] ub1 show ?thesis by simp
  qed
  have ne: "rs \<noteq> []" using lrs assms(1) by auto
  have sub: "set rs \<subseteq> fmdom' (callbacks c1)" using srs by simp
  note fin = remove_all_ok [OF drs sub, of B]
  from fin ne srs ub1 have last: "ub (snd (remove_all B rs c1)) = ub c0 @ [?start, ?stop]" by simp
  from fin srs have empty: "map_len (callbacks (snd (remove_all B rs c1))) = 0"
    by (simp add: map_len_alt)
  from len lrs card1 adds rems last empty show ?thesis by blast
qed

theorem video_started_once_stopped_once_witness:
  "[10, 20, 30 :: nat] \<noteq> [] \<and>
   callbacks (New_Camera [] :: nat Camera) = fmempty \<and>
   fst (add_all sample_bridge (map Some [10, 20, 30 :: nat]) (New_Camera [])) =
     [(1, None), (2, None), (3, None)] \<and>
   mset [2, 3, 1 :: nat] = mset (map fst [(1 :: nat, None :: error), (2, None), (3, None)]) \<and>
   ub (snd (add_all sample_bridge (map Some (take 1 [10, 20, 30 :: nat])) (New_Camera []))) =
     [CSendEvent (NewFromType TypeStartVideo)] \<and>
   ub (snd (add_all sample_bridge (map Some [10, 20, 30 :: nat]) (New_Camera []))) =
     [CSendEvent (NewFromType TypeStartVideo)] \<and>
   ub (snd (remove_all sample_bridge (take 2 [2, 3, 1])
     (snd (add_all sample_bridge (map Some [10, 20, 30 :: nat]) (New_Camera []))))) =
     [CSendEvent (NewFromType TypeStartVideo)] \<and>
   ub (snd (remove_all sample_bridge [2, 3, 1]
     (snd (add_all sample_bridge (map Some [10, 20, 30 :: nat]) (New_Camera []))))) =
     [CSendEvent (NewFromType TypeStartVideo), CSendEvent (NewFromType TypeStopVideo)] \<and>
   map_len (callbacks (snd (remove_all sample_bridge [2, 3, 1]
     (snd (add_all sample_bridge (map Some [10, 20, 30 :: nat]) (New_Camera [])))))) = 0"
proof -
  let ?run = "add_all sample_bridge (map Some [10, 20, 30 :: nat]) (New_Camera [])"
  let ?start = "CSendEvent (NewFromType TypeStartVideo)"
  let ?stop = "CSendEvent (NewFromType TypeStopVideo)"
  have run: "?run =
      ([(1, None), (2, None), (3, None)],
       \<lparr>tg = 3, callbacks = fmupd 3 30 (fmupd 2 20 (fmupd 1 10 fmempty)),
        ub = [?start]\<rparr>)"
    by (simp add: AddVideoCallback_def New_Camera_def NewGenerator_def Next_def map_len_alt
        sample_bridge_simps NewFromType_def numeral_2_eq_2 numeral_3_eq_3)
  have rets: "fst ?run = [(1, None), (2, None), (3, None)]"
    by (simp only: run fst_conv)
  have ub1: "ub (snd ?run) = [?start]"
    by (simp only: run snd_conv Camera.simps)
  have perm: "mset [2, 3, 1 :: nat] =
      mset (map fst [(1 :: nat, None :: error), (2, None), (3, None)])"
    by (simp add: add_mset_commute)
  have ne: "[10, 20, 30 :: nat] \<noteq> []" by simp
  have h2: "?run = (fst ?run, snd ?run)" by simp
  have h3: "\<forall>x \<in> set (fst ?run). snd x = None" unfolding rets by simp
  have h4: "mset [2, 3, 1 :: nat] = mset (map fst (fst ?run))" unfolding rets by (rule perm)
  have h1: "callbacks (New_Camera [] :: nat Camera) = fmempty"
    by (simp add: New_Camera_def)
  have ub0: "ub (New_Camera [] :: nat Camera) = []"
    by (simp add: New_Camera_def)
  note t = video_started_once_stopped_once [OF ne h1 h2 h3 h4, unfolded ub0]
  note adds = t [THEN conjunct2, THEN conjunct2, THEN conjunct2, THEN conjunct1, rule_format]
  note rems = t [THEN conjunct2, THEN conjunct2, THEN conjunct2, THEN conjunct2,
      THEN conjunct1, rule_format]
  have w1: "ub (snd (add_all sample_bridge (map Some (take 1 [10, 20, 30 :: nat]))
      (New_Camera []))) = [?start]"
    by (rule adds [of 1, simplified append_Nil]) simp
  have w2: "ub (snd (remove_all sample_bridge (take 2 [2, 3, 1]) (snd ?run))) = [?start]"
    by (rule rems [of 2, simplified append_Nil]) simp
  have w3: "ub (snd (remove_all sample_bridge [2, 3, 1] (snd ?run))) = [?start, ?stop]"
    using t [THEN conjunct2, THEN conjunct2, THEN conjunct2, THEN conjunct2,
      THEN conjunct2, THEN conjunct1] by (simp only: append_Nil)
  have w4: "map_len (callbacks (snd (remove_all sample_bridge [2, 3, 1] (snd ?run)))) = 0"
    by (rule t [THEN conjunct2, THEN conjunct2, THEN conjunct2, THEN conjunct2,
      THEN conjunct2, THEN conjunct2])
  show ?thesis by (intro conjI) (rule ne h1 rets perm w1 ub1 w2 w3 w4)+
qed

end
